theory Spec2Isabelle
  imports Complex_Main "HOL-Library.Word"
begin

section \<open>Strings\<close>

text \<open>
  Python strings are modelled as \<open>string\<close>, one \<open>char\<close> per code point, for the code
  points below 256. The string primitives of the Python library that the source calls are
  written out here as recursive functions.
\<close>

definition lower_char :: "char \<Rightarrow> char" where
  \<comment> \<open>one character of \<open>str.lower()\<close>: A-Z and the Latin-1 capitals gain 32\<close>
  "lower_char c =
     (let n = (of_char c :: nat)
      in if (65 \<le> n \<and> n \<le> 90) \<or> (192 \<le> n \<and> n \<le> 222 \<and> n \<noteq> 215)
         then char_of (n + 32) else c)"

definition lower :: "string \<Rightarrow> string" where
  \<comment> \<open>\<open>str.lower()\<close>\<close>
  "lower s = map lower_char s"

fun startswith :: "string \<Rightarrow> string \<Rightarrow> bool" where
  \<comment> \<open>\<open>s.startswith(p)\<close>\<close>
  "startswith s [] = True"
| "startswith [] (p # ps) = False"
| "startswith (c # cs) (p # ps) = (c = p \<and> startswith cs ps)"

fun contains :: "string \<Rightarrow> string \<Rightarrow> bool" where
  \<comment> \<open>\<open>m in s\<close> for strings\<close>
  "contains [] m = (m = [])"
| "contains (c # cs) m = (startswith (c # cs) m \<or> contains cs m)"

definition is_space :: "char \<Rightarrow> bool" where
  \<comment> \<open>the characters \<open>str.strip()\<close> removes, among the code points below 256\<close>
  "is_space c =
     (let n = (of_char c :: nat)
      in (9 \<le> n \<and> n \<le> 13) \<or> (28 \<le> n \<and> n \<le> 32) \<or> n = 133 \<or> n = 160)"

definition lstrip_by :: "(char \<Rightarrow> bool) \<Rightarrow> string \<Rightarrow> string" where
  "lstrip_by p s = dropWhile p s"

definition rstrip_by :: "(char \<Rightarrow> bool) \<Rightarrow> string \<Rightarrow> string" where
  "rstrip_by p s = rev (dropWhile p (rev s))"

definition strip_by :: "(char \<Rightarrow> bool) \<Rightarrow> string \<Rightarrow> string" where
  "strip_by p s = rstrip_by p (lstrip_by p s)"

definition strip :: "string \<Rightarrow> string" where
  \<comment> \<open>\<open>str.strip()\<close>\<close>
  "strip s = strip_by is_space s"

fun split_on :: "char \<Rightarrow> string \<Rightarrow> string list" where
  \<comment> \<open>\<open>s.split(d)\<close> for a one-character separator: never the empty list\<close>
  "split_on d [] = [[]]"
| "split_on d (c # cs) =
     (if c = d then [] # split_on d cs
      else (case split_on d cs of
              [] \<Rightarrow> [[c]]
            | p # ps \<Rightarrow> (c # p) # ps))"

section \<open>Exceptions\<close>

text \<open>
  An exception is its class, its message (\<open>str(exc)\<close>) and its cause
  (\<open>raise ... from exc\<close>).
\<close>

datatype exc_class =
    OpenClawGatewayError
  | TimeoutError
  | OSError
  | RuntimeError
  | ValueError
  | BinasciiError
  | UnicodeEncodeError
  | OtherException

datatype exc = Exc exc_class string "exc option"

fun exc_cls :: "exc \<Rightarrow> exc_class" where
  "exc_cls (Exc k m c) = k"

fun str_exc :: "exc \<Rightarrow> string" where
  \<comment> \<open>\<open>str(exc)\<close>\<close>
  "str_exc (Exc k m c) = m"

fun exc_cause :: "exc \<Rightarrow> exc option" where
  "exc_cause (Exc k m c) = c"

fun isinstance :: "exc_class \<Rightarrow> exc_class \<Rightarrow> bool" where
  \<comment> \<open>Modelled from the spec: the class statement of OpenClawGatewayError
      (app/integrations/openclaw_gateway.py) is not among the sources. The spec has every
      adapter-level error of a provisioning call caught by the handler for
      \<open>(OSError, RuntimeError, ValueError)\<close>, which makes it a RuntimeError. The other
      lines are Python's built-in hierarchy: TimeoutError is an OSError, binascii.Error and
      UnicodeEncodeError are ValueErrors.\<close>
  "isinstance OpenClawGatewayError RuntimeError = True"
| "isinstance TimeoutError OSError = True"
| "isinstance BinasciiError ValueError = True"
| "isinstance UnicodeEncodeError ValueError = True"
| "isinstance k k' = (k = k')"

section \<open>Transient gateway errors\<close>

definition NON_TRANSIENT_GATEWAY_ERROR_MARKERS :: "string list" where
  "NON_TRANSIENT_GATEWAY_ERROR_MARKERS = [''unsupported file'']"

definition TRANSIENT_GATEWAY_ERROR_MARKERS :: "string list" where
  "TRANSIENT_GATEWAY_ERROR_MARKERS =
     [''connect call failed'',
      ''connection refused'',
      ''errno 111'',
      ''econnrefused'',
      ''did not receive a valid http response'',
      ''no route to host'',
      ''network is unreachable'',
      ''host is down'',
      ''name or service not known'',
      ''received 1012'',
      ''service restart'',
      ''http 503'',
      ''http 502'',
      ''http 504'',
      ''temporar'',
      ''timeout'',
      ''timed out'',
      ''connection closed'',
      ''connection reset'']"

definition is_transient_gateway_error :: "exc \<Rightarrow> bool" where
  "is_transient_gateway_error e =
     (if \<not> isinstance (exc_cls e) OpenClawGatewayError then False
      else let message = lower (str_exc e)
           in if message = [] then False
              else if list_ex (contains message) NON_TRANSIENT_GATEWAY_ERROR_MARKERS then False
              else (contains message ''503'' \<and> contains message ''websocket'')
                   \<or> list_ex (contains message) TRANSIENT_GATEWAY_ERROR_MARKERS)"

section \<open>Agent resolver\<close>

type_synonym uuid = nat

record agent =
  agent_id :: uuid
  agent_name :: string
  agent_board_id :: "uuid option"
  openclaw_session_id :: "string option"

definition SESSION_KEY_PARTS_MIN :: nat where
  "SESSION_KEY_PARTS_MIN = 2"

definition is_slug_char :: "char \<Rightarrow> bool" where
  \<comment> \<open>the character class \<open>[a-z0-9]\<close>\<close>
  "is_slug_char c =
     (let n = (of_char c :: nat) in (97 \<le> n \<and> n \<le> 122) \<or> (48 \<le> n \<and> n \<le> 57))"

function sub_non_slug :: "string \<Rightarrow> string" where
  \<comment> \<open>\<open>re.sub(r"[^a-z0-9]+", "-", s)\<close>\<close>
  "sub_non_slug [] = []"
| "sub_non_slug (c # cs) =
     (if is_slug_char c then c # sub_non_slug cs
      else CHR ''-'' # sub_non_slug (dropWhile (\<lambda>x. \<not> is_slug_char x) cs))"
  by pat_completeness auto
termination
  by (relation "measure length") (auto simp: less_Suc_eq_le length_dropWhile_le)

definition slugify :: "string \<Rightarrow> string \<Rightarrow> string" where
  \<comment> \<open>\<open>_slugify(value)\<close>; \<open>uuid_hex\<close> is the value \<open>uuid4().hex\<close> draws\<close>
  "slugify uuid_hex value =
     (let slug = strip_by (\<lambda>c. c = CHR ''-'') (sub_non_slug (lower value))
      in if slug \<noteq> [] then slug else uuid_hex)"

definition gateway_agent_id :: "string \<Rightarrow> agent \<Rightarrow> string" where
  \<comment> \<open>\<open>_gateway_agent_id(agent)\<close>\<close>
  "gateway_agent_id uuid_hex a =
     (let session_key = (case openclaw_session_id a of None \<Rightarrow> [] | Some k \<Rightarrow> k)
      in if startswith session_key ''agent:''
         then (let parts = split_on CHR '':'' session_key
               in if length parts \<ge> SESSION_KEY_PARTS_MIN \<and> parts ! 1 \<noteq> []
                  then parts ! 1
                  else slugify uuid_hex (agent_name a))
         else slugify uuid_hex (agent_name a))"

section \<open>Provisioning message\<close>

record settings =
  openclaw_workspace_root :: string
  base_url :: string

definition TEMPLATE_FILES :: "string list" where
  "TEMPLATE_FILES =
     [''AGENTS.md'', ''BOOT.md'', ''BOOTSTRAP.md'', ''HEARTBEAT.md'',
      ''IDENTITY.md'', ''SOUL.md'', ''TOOLS.md'', ''USER.md'']"

definition read_templates :: "(string \<rightharpoonup> string) \<Rightarrow> (string \<rightharpoonup> string)" where
  \<comment> \<open>\<open>_read_templates()\<close>; the argument is the templates directory, file name to text\<close>
  "read_templates dir =
     map_of (map (\<lambda>name. (name, case dir name of Some text \<Rightarrow> strip text | None \<Rightarrow> []))
               TEMPLATE_FILES)"

definition render_file_block :: "string \<Rightarrow> string \<Rightarrow> string" where
  "render_file_block name content =
     (let body = (if content \<noteq> [] then content
                  else ''# '' @ name @ ''\<newline>\<newline>TODO: add content\<newline>'')
      in ''\<newline>'' @ name @ ''\<newline>```md\<newline>'' @ body @ ''\<newline>```\<newline>'')"

definition workspace_path :: "settings \<Rightarrow> string \<Rightarrow> string \<Rightarrow> string" where
  "workspace_path cfg uuid_hex name =
     (let root = (if openclaw_workspace_root cfg \<noteq> [] then openclaw_workspace_root cfg
                  else ''~/.openclaw/workspaces'');
          root = rstrip_by (\<lambda>c. c = CHR ''/'') root
      in root @ ''/'' @ slugify uuid_hex name)"

definition build_provisioning_message ::
  "settings \<Rightarrow> (string \<rightharpoonup> string) \<Rightarrow> string \<Rightarrow> string \<Rightarrow> agent \<Rightarrow> string" where
  \<comment> \<open>\<open>uuid1\<close> and \<open>uuid2\<close> are the two draws of \<open>uuid4().hex\<close>, one in each call of
      \<open>_slugify\<close>\<close>
  "build_provisioning_message cfg dir uuid1 uuid2 a =
     (let templates = read_templates dir;
          agent_slug = slugify uuid1 (agent_name a);
          ws_path = workspace_path cfg uuid2 (agent_name a);
          session_key = (case openclaw_session_id a of None \<Rightarrow> [] | Some k \<Rightarrow> k);
          url = base_url cfg;
          file_blocks =
            concat (map (\<lambda>name. render_file_block name
                                   (case templates name of Some t \<Rightarrow> t | None \<Rightarrow> []))
                        TEMPLATE_FILES)
      in ''Provision a new OpenClaw agent workspace.\<newline>\<newline>''
         @ ''Agent name: '' @ agent_name a @ ''\<newline>''
         @ ''Agent id: '' @ agent_slug @ ''\<newline>''
         @ ''Session key: '' @ session_key @ ''\<newline>''
         @ ''Workspace path: '' @ ws_path @ ''\<newline>\<newline>''
         @ ''Base URL: '' @ (if url \<noteq> [] then url else ''UNSET'') @ ''\<newline>\<newline>''
         @ ''Steps:\<newline>''
         @ ''1) Create the workspace directory.\<newline>''
         @ ''2) Write the files below with the exact contents.\<newline>''
         @ ''3) Set BASE_URL to '' @ (if url \<noteq> [] then url else ''{{BASE_URL}}'')
         @ '' for the agent runtime.\<newline>''
         @ ''4) Replace placeholders like {{AGENT_NAME}}, {{AGENT_ID}}, {{BASE_URL}}, {{AUTH_TOKEN}}.\<newline>''
         @ ''5) Leave BOOTSTRAP.md in place; the agent should run it on first start and delete it.\<newline>''
         @ ''6) Register agent id in OpenClaw so it uses this workspace path.\<newline>\<newline>''
         @ ''Files:'' @ file_blocks)"

section \<open>Token codec\<close>

text \<open>
  Bytes are \<open>8 word\<close>. The functions of the Python library that the codec calls
  (\<open>base64\<close>, \<open>binascii\<close>, \<open>int\<close>, \<open>str.encode\<close>) are written out as the library computes
  them; \<open>hashlib.pbkdf2_hmac\<close> keeps its argument checks, and the derivation itself is the
  parameter \<open>kdf\<close>. The random draws of \<open>secrets\<close> are arguments.
\<close>

type_synonym byte = "8 word"

definition ITERATIONS :: nat where
  "ITERATIONS = 200000"

definition SALT_BYTES :: nat where
  "SALT_BYTES = 16"

definition b64_char :: "nat \<Rightarrow> char" where
  \<comment> \<open>the URL-safe alphabet: A-Z, a-z, 0-9, "-", "_"\<close>
  "b64_char i =
     (if i < 26 then char_of (65 + i)
      else if i < 52 then char_of (97 + (i - 26))
      else if i < 62 then char_of (48 + (i - 52))
      else if i = 62 then CHR ''-'' else CHR ''_'')"

fun urlsafe_b64encode :: "byte list \<Rightarrow> string" where
  \<comment> \<open>\<open>base64.urlsafe_b64encode(value).decode("utf-8")\<close>\<close>
  "urlsafe_b64encode [] = []"
| "urlsafe_b64encode [a] =
     [b64_char (unat a div 4), b64_char ((unat a mod 4) * 16), CHR ''='', CHR ''='']"
| "urlsafe_b64encode [a, b] =
     [b64_char (unat a div 4), b64_char ((unat a mod 4) * 16 + unat b div 16),
      b64_char ((unat b mod 16) * 4), CHR ''='']"
| "urlsafe_b64encode (a # b # c # rest) =
     [b64_char (unat a div 4), b64_char ((unat a mod 4) * 16 + unat b div 16),
      b64_char ((unat b mod 16) * 4 + unat c div 64), b64_char (unat c mod 64)]
     @ urlsafe_b64encode rest"

definition b64encode :: "byte list \<Rightarrow> string" where
  \<comment> \<open>\<open>_b64encode(value)\<close>\<close>
  "b64encode v = rstrip_by (\<lambda>c. c = CHR ''='') (urlsafe_b64encode v)"

definition urlsafe_translate :: "char \<Rightarrow> char" where
  \<comment> \<open>the translation \<open>urlsafe_b64decode\<close> applies before decoding\<close>
  "urlsafe_translate c =
     (if c = CHR ''-'' then CHR ''+'' else if c = CHR ''_'' then CHR ''/'' else c)"

definition table_a2b_base64 :: "char \<Rightarrow> nat option" where
  \<comment> \<open>the value of a character of the standard alphabet; \<open>None\<close> for any other\<close>
  "table_a2b_base64 c =
     (let n = (of_char c :: nat)
      in if 65 \<le> n \<and> n \<le> 90 then Some (n - 65)
         else if 97 \<le> n \<and> n \<le> 122 then Some (n - 71)
         else if 48 \<le> n \<and> n \<le> 57 then Some (n + 4)
         else if c = CHR ''+'' then Some 62
         else if c = CHR ''/'' then Some 63
         else None)"

fun digit_char :: "nat \<Rightarrow> char" where
  "digit_char n = char_of (48 + n)"

function str_nat :: "nat \<Rightarrow> string" where
  \<comment> \<open>\<open>str(n)\<close> for a natural number\<close>
  "str_nat n = (if n < 10 then [digit_char n] else str_nat (n div 10) @ [digit_char (n mod 10)])"
  by pat_completeness auto
termination
  by (relation "measure id") auto

fun a2b_base64 :: "nat \<Rightarrow> nat \<Rightarrow> nat \<Rightarrow> byte list \<Rightarrow> string \<Rightarrow> exc + byte list" where
  \<comment> \<open>\<open>binascii.a2b_base64\<close> outside strict mode, as CPython's loop runs: \<open>quad_pos\<close>,
      \<open>leftchar\<close> and \<open>pads\<close> are its variables, \<open>out\<close> the bytes written so far\<close>
  "a2b_base64 quad_pos leftchar pads out [] =
     (if quad_pos \<noteq> 0
      then (if quad_pos = 1
            then Inl (Exc BinasciiError
                        (''Invalid base64-encoded string: number of data characters (''
                         @ str_nat (length out div 3 * 4 + 1)
                         @ '') cannot be 1 more than a multiple of 4'') None)
            else Inl (Exc BinasciiError ''Incorrect padding'' None))
      else Inr out)"
| "a2b_base64 quad_pos leftchar pads out (c # cs) =
     (if c = CHR ''=''
      then (if quad_pos \<ge> 2 \<and> quad_pos + (pads + 1) \<ge> 4 then Inr out
            else a2b_base64 quad_pos leftchar (if quad_pos \<ge> 2 then pads + 1 else pads) out cs)
      else (case table_a2b_base64 c of
              None \<Rightarrow> a2b_base64 quad_pos leftchar pads out cs
            | Some v \<Rightarrow>
                if quad_pos = 0 then a2b_base64 1 v 0 out cs
                else if quad_pos = 1
                  then a2b_base64 2 (v mod 16) 0 (out @ [of_nat (leftchar * 4 + v div 16)]) cs
                else if quad_pos = 2
                  then a2b_base64 3 (v mod 4) 0 (out @ [of_nat (leftchar * 16 + v div 4)]) cs
                else a2b_base64 0 0 0 (out @ [of_nat (leftchar * 64 + v)]) cs))"

definition urlsafe_b64decode :: "string \<Rightarrow> exc + byte list" where
  \<comment> \<open>\<open>base64.urlsafe_b64decode(s)\<close> for a string argument\<close>
  "urlsafe_b64decode s =
     (if list_ex (\<lambda>c. (of_char c :: nat) \<ge> 128) s
      then Inl (Exc ValueError ''string argument should contain only ASCII characters'' None)
      else a2b_base64 0 0 0 [] (map urlsafe_translate s))"

definition b64decode :: "string \<Rightarrow> exc + byte list" where
  \<comment> \<open>\<open>_b64decode(value)\<close>; \<open>(-len(value)) % 4\<close> is \<open>(4 - len mod 4) mod 4\<close>\<close>
  "b64decode v =
     (let padding = replicate ((4 - length v mod 4) mod 4) CHR ''=''
      in urlsafe_b64decode (v @ padding))"

definition utf8_encode :: "string \<Rightarrow> byte list" where
  \<comment> \<open>\<open>s.encode("utf-8")\<close> for code points below 256\<close>
  "utf8_encode s =
     concat (map (\<lambda>c. let n = (of_char c :: nat)
                       in if n < 128 then [of_nat n]
                          else [of_nat (192 + n div 64), of_nat (128 + n mod 64)]) s)"

definition is_digit :: "char \<Rightarrow> bool" where
  "is_digit c = (let n = (of_char c :: nat) in 48 \<le> n \<and> n \<le> 57)"

definition digit_value :: "char \<Rightarrow> nat" where
  "digit_value c = (of_char c :: nat) - 48"

fun parse_digits :: "nat \<Rightarrow> string \<Rightarrow> nat option" where
  \<comment> \<open>the digits after the first one, single underscores allowed between digits\<close>
  "parse_digits acc [] = Some acc"
| "parse_digits acc (c # cs) =
     (if is_digit c then parse_digits (acc * 10 + digit_value c) cs
      else if c = CHR ''_''
        then (case cs of
                [] \<Rightarrow> None
              | d # ds \<Rightarrow> if is_digit d then parse_digits (acc * 10 + digit_value d) ds
                          else None)
      else None)"

definition py_int :: "string \<Rightarrow> int option" where
  \<comment> \<open>\<open>int(s)\<close> in base ten; \<open>None\<close> is the ValueError\<close>
  "py_int s =
     (let t = strip s;
          neg = startswith t ''-'';
          u = (if startswith t ''-'' \<or> startswith t ''+'' then tl t else t)
      in case u of
           [] \<Rightarrow> None
         | c # cs \<Rightarrow>
             if is_digit c
             then map_option (\<lambda>n. if neg then - int n else int n)
                    (parse_digits (digit_value c) cs)
             else None)"

definition pbkdf2_hmac ::
  "(byte list \<Rightarrow> byte list \<Rightarrow> nat \<Rightarrow> byte list) \<Rightarrow> byte list \<Rightarrow> byte list \<Rightarrow> int
     \<Rightarrow> exc + byte list" where
  \<comment> \<open>\<open>hashlib.pbkdf2_hmac("sha256", password, salt, iterations)\<close>: the checks of the
      iteration count (a C long of 64 bits), then the derivation \<open>kdf\<close>\<close>
  "pbkdf2_hmac kdf password salt iterations =
     (if iterations > 2 ^ 63 - 1
      then Inl (Exc OtherException ''Python int too large to convert to C long'' None)
      else if iterations < 1
      then Inl (Exc ValueError ''iteration value must be greater than 0.'' None)
      else Inr (kdf password salt (nat iterations)))"

definition generate_agent_token :: "byte list \<Rightarrow> string" where
  \<comment> \<open>\<open>secrets.token_urlsafe(32)\<close>; the argument is the 32 random bytes it draws\<close>
  "generate_agent_token random_bytes = b64encode random_bytes"

definition hash_agent_token ::
  "(byte list \<Rightarrow> byte list \<Rightarrow> nat \<Rightarrow> byte list) \<Rightarrow> byte list \<Rightarrow> string \<Rightarrow> exc + string" where
  \<comment> \<open>\<open>salt\<close> is the value of \<open>secrets.token_bytes(SALT_BYTES)\<close>\<close>
  "hash_agent_token kdf salt token =
     (case pbkdf2_hmac kdf (utf8_encode token) salt (int ITERATIONS) of
        Inl e \<Rightarrow> Inl e
      | Inr digest \<Rightarrow>
          Inr (''pbkdf2_sha256$'' @ str_nat ITERATIONS @ ''$'' @ b64encode salt
               @ ''$'' @ b64encode digest))"

definition verify_agent_token ::
  "(byte list \<Rightarrow> byte list \<Rightarrow> nat \<Rightarrow> byte list) \<Rightarrow> string \<Rightarrow> string \<Rightarrow> exc + bool" where
  "verify_agent_token kdf token stored_hash =
     (case split_on CHR ''$'' stored_hash of
        [algorithm, iterations, salt_b64, digest_b64] \<Rightarrow>
          if algorithm \<noteq> ''pbkdf2_sha256'' then Inr False
          else (case py_int iterations of
                  None \<Rightarrow> Inr False
                | Some iterations_int \<Rightarrow>
                    (case b64decode salt_b64 of
                       Inl e \<Rightarrow> Inl e
                     | Inr salt \<Rightarrow>
                         (case b64decode digest_b64 of
                            Inl e \<Rightarrow> Inl e
                          | Inr expected_digest \<Rightarrow>
                              (case pbkdf2_hmac kdf (utf8_encode token) salt iterations_int of
                                 Inl e \<Rightarrow> Inl e
                               | Inr candidate \<Rightarrow> Inr (candidate = expected_digest)))))
      | _ \<Rightarrow> Inr False)"

section \<open>The gateway, the clock and the backoff driver\<close>

text \<open>
  The gateway client (\<open>openclaw_call\<close>), the provisioning calls, the event loop's clock,
  \<open>asyncio.sleep\<close> and the random sources are outside the sources. They are an
  environment of oracles: what a call answers and how long it takes (given the calls made
  before it), the values \<open>random.random()\<close> returns, how much longer than asked a sleep
  lasts, and the draws of \<open>secrets\<close> and \<open>uuid4\<close>. The world is what the program changes:
  the clock, the log of calls, the counters of the draws, the sleeps asked for, and the
  \<open>agent_token_hash\<close> column with the commits made. Time is an exact rational number of
  seconds.
\<close>

datatype payload =
    PStr string
  | PDict "(string \<times> payload) list"
  | PList "payload list"
  | POther

datatype call =
    AgentsList
  | AgentsFilesGet string string
  | ProvisionAgent uuid uuid string bool bool
  | ProvisionMainAgent uuid string bool bool

record env =
  env_respond :: "call list \<Rightarrow> call \<Rightarrow> exc + payload"
  env_elapsed :: "call list \<Rightarrow> call \<Rightarrow> rat"
  env_random :: "nat \<Rightarrow> rat"
  env_oversleep :: "nat \<Rightarrow> rat"
  env_token_bytes :: "nat \<Rightarrow> byte list"
  env_salt_bytes :: "nat \<Rightarrow> byte list"
  env_uuid_hex :: "nat \<Rightarrow> string"
  env_kdf :: "byte list \<Rightarrow> byte list \<Rightarrow> nat \<Rightarrow> byte list"

record world =
  clock :: rat
  call_log :: "call list"
  random_draws :: nat
  sleeps :: "rat list"
  secret_draws :: nat
  uuid_draws :: nat
  token_hashes :: "uuid \<rightharpoonup> string"
  commits :: "uuid list"

type_synonym 'a action = "world \<Rightarrow> (exc + 'a) \<times> world"

definition openclaw_call :: "env \<Rightarrow> call \<Rightarrow> payload action" where
  \<comment> \<open>one call of the gateway: the answer of the oracle, the call logged, the clock moved\<close>
  "openclaw_call ev c w =
     (env_respond ev (call_log w) c,
      w\<lparr>call_log := call_log w @ [c], clock := clock w + env_elapsed ev (call_log w) c\<rparr>)"

definition uniform :: "env \<Rightarrow> rat \<Rightarrow> rat \<Rightarrow> world \<Rightarrow> rat \<times> world" where
  \<comment> \<open>\<open>random.uniform(a, b)\<close>, that is \<open>a + (b - a) * random()\<close>\<close>
  "uniform ev lo hi w =
     (lo + (hi - lo) * env_random ev (random_draws w),
      w\<lparr>random_draws := Suc (random_draws w)\<rparr>)"

definition sleep :: "env \<Rightarrow> rat \<Rightarrow> world \<Rightarrow> world" where
  \<comment> \<open>\<open>await asyncio.sleep(s)\<close>\<close>
  "sleep ev s w =
     w\<lparr>clock := clock w + s + env_oversleep ev (length (sleeps w)), sleeps := sleeps w @ [s]\<rparr>"

record backoff =
  timeout_s :: rat
  base_delay_s :: rat
  max_delay_s :: rat
  jitter :: rat
  delay_s :: rat

definition GatewayBackoff :: "rat \<Rightarrow> backoff" where
  \<comment> \<open>\<open>_GatewayBackoff(timeout_s=...)\<close> with the other defaults\<close>
  "GatewayBackoff t =
     \<lparr>timeout_s = t, base_delay_s = 3 / 4, max_delay_s = 30, jitter = 1 / 5, delay_s = 3 / 4\<rparr>"

definition reset :: "backoff \<Rightarrow> backoff" where
  "reset b = b\<lparr>delay_s := base_delay_s b\<rparr>"

definition gateway_timeout_message :: "exc \<Rightarrow> string" where
  "gateway_timeout_message e =
     ''Gateway unreachable after 10 minutes (template sync timeout). Last error: '' @ str_exc e"

definition retry_sleep :: "env \<Rightarrow> backoff \<Rightarrow> rat \<Rightarrow> world \<Rightarrow> rat \<times> world" where
  \<comment> \<open>the three assignments to \<open>sleep_s\<close> in \<open>run\<close>\<close>
  "retry_sleep ev b remaining w =
     (let sleep_s = min (delay_s b) remaining;
          (sleep_s, w) = (if jitter b \<noteq> 0
                          then (let (u, w') = uniform ev (- jitter b) (jitter b) w
                                in (sleep_s * (1 + u), w'))
                          else (sleep_s, w));
          sleep_s = max 0 (min sleep_s remaining)
      in (sleep_s, w))"

fun run_loop ::
  "nat \<Rightarrow> env \<Rightarrow> rat \<Rightarrow> 'a action \<Rightarrow> backoff \<Rightarrow> world \<Rightarrow> ((exc + 'a) \<times> backoff \<times> world) option"
  where
  \<comment> \<open>the \<open>while True\<close> of \<open>_GatewayBackoff.run\<close>; the first argument bounds the attempts,
      and \<open>None\<close> is the loop still running when they are used up\<close>
  "run_loop 0 ev deadline_s fn b w = None"
| "run_loop (Suc fuel) ev deadline_s fn b w =
     (case fn w of
        (Inr v, w1) \<Rightarrow> Some (Inr v, reset b, w1)
      | (Inl e, w1) \<Rightarrow>
          if \<not> isinstance (exc_cls e) OpenClawGatewayError then Some (Inl e, b, w1)
          else if \<not> is_transient_gateway_error e then Some (Inl e, b, w1)
          else
            (let now = clock w1;
                 remaining = deadline_s - now
             in if remaining \<le> 0
                then Some (Inl (Exc TimeoutError (gateway_timeout_message e) (Some e)), b, w1)
                else
                  (let (sleep_s, w2) = retry_sleep ev b remaining w1;
                       w3 = sleep ev sleep_s w2
                   in run_loop fuel ev deadline_s fn
                        (b\<lparr>delay_s := min (delay_s b * 2) (max_delay_s b)\<rparr>) w3)))"

definition run ::
  "nat \<Rightarrow> env \<Rightarrow> backoff \<Rightarrow> 'a action \<Rightarrow> world \<Rightarrow> ((exc + 'a) \<times> backoff \<times> world) option" where
  \<comment> \<open>\<open>_GatewayBackoff.run(fn)\<close>: the deadline is set from the clock at the call\<close>
  "run fuel ev b fn w = run_loop fuel ev (clock w + timeout_s b) fn b w"

definition with_gateway_retry ::
  "nat \<Rightarrow> env \<Rightarrow> 'a action \<Rightarrow> backoff \<Rightarrow> world \<Rightarrow> ((exc + 'a) \<times> backoff \<times> world) option" where
  "with_gateway_retry fuel ev fn b w = run fuel ev b fn w"

section \<open>Reading an agent's token from the gateway\<close>

fun dict_set :: "'k \<Rightarrow> 'v \<Rightarrow> ('k \<times> 'v) list \<Rightarrow> ('k \<times> 'v) list" where
  \<comment> \<open>\<open>d[k] = v\<close> on a dict kept as the list of its items in insertion order\<close>
  "dict_set k v [] = [(k, v)]"
| "dict_set k v ((k', v') # kvs) =
     (if k = k' then (k, v) # kvs else (k', v') # dict_set k v kvs)"

definition file_content :: "payload \<Rightarrow> string option" where
  \<comment> \<open>what \<open>_get_agent_file\<close> returns for an answer of the gateway\<close>
  "file_content p =
     (case p of
        PStr s \<Rightarrow> Some s
      | PDict d \<Rightarrow>
          (case map_of d ''content'' of
             Some (PStr s) \<Rightarrow> Some s
           | _ \<Rightarrow>
               (case map_of d ''file'' of
                  Some (PDict f) \<Rightarrow>
                    (case map_of f ''content'' of Some (PStr n) \<Rightarrow> Some n | _ \<Rightarrow> None)
                | _ \<Rightarrow> None))
      | _ \<Rightarrow> None)"

definition get_agent_file ::
  "nat \<Rightarrow> env \<Rightarrow> backoff \<Rightarrow> string \<Rightarrow> string \<Rightarrow> world
     \<Rightarrow> ((exc + string option) \<times> backoff \<times> world) option" where
  \<comment> \<open>\<open>_get_agent_file\<close> with a backoff, as the sync calls it: a gateway error is the
      answer \<open>None\<close>, any other exception (the Timeout of the backoff too) goes on\<close>
  "get_agent_file fuel ev b agent_gateway_id name w =
     (case run fuel ev b (openclaw_call ev (AgentsFilesGet agent_gateway_id name)) w of
        None \<Rightarrow> None
      | Some (Inl e, b', w') \<Rightarrow>
          if isinstance (exc_cls e) OpenClawGatewayError then Some (Inr None, b', w')
          else Some (Inl e, b', w')
      | Some (Inr p, b', w') \<Rightarrow> Some (Inr (file_content p), b', w'))"

definition is_linebreak :: "char \<Rightarrow> bool" where
  \<comment> \<open>the line boundaries of \<open>str.splitlines()\<close> among the code points below 256\<close>
  "is_linebreak c =
     (let n = (of_char c :: nat)
      in (10 \<le> n \<and> n \<le> 13) \<or> (28 \<le> n \<and> n \<le> 30) \<or> n = 133)"

fun splitlines_from :: "string \<Rightarrow> string \<Rightarrow> string list" where
  \<comment> \<open>\<open>str.splitlines()\<close> with the line read so far; CR LF is one boundary\<close>
  "splitlines_from cur [] = (if cur = [] then [] else [cur])"
| "splitlines_from cur [c] = (if is_linebreak c then [cur] else [cur @ [c]])"
| "splitlines_from cur (c # d # cs) =
     (if c = char_of (13 :: nat) \<and> d = char_of (10 :: nat) then cur # splitlines_from [] cs
      else if is_linebreak c then cur # splitlines_from [] (d # cs)
      else splitlines_from (cur @ [c]) (d # cs))"

definition splitlines :: "string \<Rightarrow> string list" where
  "splitlines s = splitlines_from [] s"

definition is_key_char :: "char \<Rightarrow> bool" where
  \<comment> \<open>the character class \<open>[A-Z0-9_]\<close>\<close>
  "is_key_char c =
     (let n = (of_char c :: nat)
      in (65 \<le> n \<and> n \<le> 90) \<or> (48 \<le> n \<and> n \<le> 57) \<or> n = 95)"

definition TOOLS_KV_RE_match :: "string \<Rightarrow> (string \<times> string) option" where
  \<comment> \<open>\<open>_TOOLS_KV_RE.match(line)\<close> for a line without a line feed: the groups key and value\<close>
  "TOOLS_KV_RE_match line =
     (let key = takeWhile is_key_char line;
          rest = dropWhile is_key_char line
      in if key \<noteq> [] \<and> startswith rest ''=''
         then Some (key, tl rest) else None)"

definition parse_tools_md :: "string \<Rightarrow> (string \<times> string) list" where
  \<comment> \<open>\<open>_parse_tools_md(content)\<close>\<close>
  "parse_tools_md content =
     fold (\<lambda>raw values.
             (let line = strip raw
              in if line = [] \<or> startswith line ''#'' then values
                 else (case TOOLS_KV_RE_match line of
                         None \<Rightarrow> values
                       | Some (key, v) \<Rightarrow> dict_set key (strip v) values)))
       (splitlines content) []"

definition get_existing_auth_token ::
  "nat \<Rightarrow> env \<Rightarrow> backoff \<Rightarrow> string \<Rightarrow> world
     \<Rightarrow> ((exc + string option) \<times> backoff \<times> world) option" where
  \<comment> \<open>\<open>_get_existing_auth_token\<close>\<close>
  "get_existing_auth_token fuel ev b agent_gateway_id w =
     (case get_agent_file fuel ev b agent_gateway_id ''TOOLS.md'' w of
        None \<Rightarrow> None
      | Some (Inl e, b', w') \<Rightarrow> Some (Inl e, b', w')
      | Some (Inr tools, b', w') \<Rightarrow>
          Some (Inr (case tools of
                       None \<Rightarrow> None
                     | Some t \<Rightarrow>
                         if t = [] then None
                         else (case map_of (parse_tools_md t) ''AUTH_TOKEN'' of
                                 None \<Rightarrow> None
                               | Some token \<Rightarrow>
                                   if token = [] then None
                                   else if strip token = [] then None
                                   else Some (strip token))),
                b', w'))"

section \<open>The default agent of the gateway\<close>

definition agent_id_from_session_key :: "string option \<Rightarrow> string option" where
  \<comment> \<open>\<open>_agent_id_from_session_key\<close>\<close>
  "agent_id_from_session_key session_key =
     (let v = strip (case session_key of None \<Rightarrow> [] | Some k \<Rightarrow> k)
      in if v = [] then None
         else if \<not> startswith v ''agent:'' then None
         else (let parts = split_on CHR '':'' v
               in if length parts < SESSION_KEY_PARTS_MIN then None
                  else (let agent_id = strip (parts ! 1)
                        in if agent_id = [] then None else Some agent_id)))"

fun first_some :: "('a \<Rightarrow> 'b option) \<Rightarrow> 'a list \<Rightarrow> 'b option" where
  \<comment> \<open>a \<open>for\<close> loop that returns at the first hit\<close>
  "first_some f [] = None"
| "first_some f (x # xs) = (case f x of Some y \<Rightarrow> Some y | None \<Rightarrow> first_some f xs)"

definition stripped_str :: "payload option \<Rightarrow> string option" where
  \<comment> \<open>\<open>raw.strip()\<close> when \<open>isinstance(raw, str) and raw.strip()\<close>\<close>
  "stripped_str raw =
     (case raw of
        Some (PStr s) \<Rightarrow> if strip s \<noteq> [] then Some (strip s) else None
      | _ \<Rightarrow> None)"

definition from_list :: "payload option \<Rightarrow> string option" where
  \<comment> \<open>\<open>_from_list\<close> inside \<open>_extract_agent_id\<close>\<close>
  "from_list items =
     (case items of
        Some (PList xs) \<Rightarrow>
          first_some
            (\<lambda>item. case item of
                       PStr s \<Rightarrow> stripped_str (Some item)
                     | PDict d \<Rightarrow>
                         first_some (\<lambda>key. stripped_str (map_of d key))
                           [''id'', ''agentId'', ''agent_id'']
                     | _ \<Rightarrow> None)
            xs
      | _ \<Rightarrow> None)"

definition extract_agent_id :: "payload \<Rightarrow> string option" where
  \<comment> \<open>\<open>_extract_agent_id\<close>\<close>
  "extract_agent_id p =
     (case p of
        PList xs \<Rightarrow> from_list (Some p)
      | PDict d \<Rightarrow>
          (case first_some (\<lambda>key. stripped_str (map_of d key))
                  [''defaultId'', ''default_id'', ''defaultAgentId'', ''default_agent_id''] of
             Some i \<Rightarrow> Some i
           | None \<Rightarrow>
               first_some (\<lambda>key. from_list (map_of d key))
                 [''agents'', ''items'', ''list'', ''data''])
      | _ \<Rightarrow> None)"

definition gateway_default_agent_id ::
  "nat \<Rightarrow> env \<Rightarrow> backoff \<Rightarrow> string option \<Rightarrow> world
     \<Rightarrow> ((exc + string option) \<times> backoff \<times> world) option" where
  \<comment> \<open>\<open>_gateway_default_agent_id\<close> with a backoff\<close>
  "gateway_default_agent_id fuel ev b fallback_session_key w =
     (case run fuel ev b (openclaw_call ev AgentsList) w of
        None \<Rightarrow> None
      | Some (Inl e, b', w') \<Rightarrow>
          if isinstance (exc_cls e) OpenClawGatewayError
          then Some (Inr (agent_id_from_session_key fallback_session_key), b', w')
          else Some (Inl e, b', w')
      | Some (Inr p, b', w') \<Rightarrow>
          (case extract_agent_id p of
             Some i \<Rightarrow> Some (Inr (Some i), b', w')
           | None \<Rightarrow> Some (Inr (agent_id_from_session_key fallback_session_key), b', w')))"

section \<open>Paused boards\<close>

text \<open>
  The tables are outside the sources; the rows carry the columns the sync reads. An agent
  row is kept with its \<open>created_at\<close>; its \<open>agent_token_hash\<close> is the entry of the world's
  \<open>token_hashes\<close> at the agent's id. Times of creation are natural numbers.
\<close>

record board =
  board_id :: uuid
  board_gateway_id :: "uuid option"

record board_memory =
  memory_board_id :: uuid
  is_chat :: bool
  content :: string
  memory_created_at :: nat

record gateway =
  gateway_id :: uuid
  gateway_url :: "string option"
  gateway_token :: "string option"
  main_session_key :: string

record database =
  db_boards :: "board list"
  db_agents :: "(nat \<times> agent) list"
  db_board_memory :: "board_memory list"

definition sql_trim :: "string \<Rightarrow> string" where
  \<comment> \<open>Modelled from the spec: SQL's \<open>trim(s)\<close>, behind \<open>func.trim\<close>, removes the spaces at
      both ends, and only spaces\<close>
  "sql_trim s = strip_by (\<lambda>c. c = CHR '' '') s"

definition commands :: "string list" where
  "commands = [''/pause'', ''/resume'']"

definition command_rows :: "board_memory list \<Rightarrow> uuid list \<Rightarrow> uuid \<Rightarrow> board_memory list" where
  \<comment> \<open>the rows of one board that the three \<open>where\<close> clauses keep, latest first
      (\<open>order_by ... created_at.desc()\<close>; SQL leaves the order of equal times open)\<close>
  "command_rows memories board_ids b =
     rev (sort_key memory_created_at
            (filter (\<lambda>m. memory_board_id m = b \<and> memory_board_id m \<in> set board_ids
                          \<and> is_chat m \<and> lower (sql_trim (content m)) \<in> set commands)
               memories))"

definition paused_board_ids :: "board_memory list \<Rightarrow> uuid list \<Rightarrow> uuid set" where
  \<comment> \<open>\<open>_paused_board_ids\<close>: \<open>DISTINCT ON (board_id)\<close> keeps the first row of each board\<close>
  "paused_board_ids memories board_ids =
     (if board_ids = [] then {}
      else Set.filter
             (\<lambda>b. case command_rows memories board_ids b of
                     [] \<Rightarrow> False
                   | m # ms \<Rightarrow> lower (strip (content m)) = ''/pause'')
             (set board_ids))"

section \<open>Template sync\<close>

text \<open>
  The result and its error entries (\<open>app.schemas.gateways\<close>) are outside the sources; the
  fields are those the sync sets. The keyword arguments of \<open>sync_gateway_templates\<close> are
  one record; \<open>user\<close> is only handed on to the provisioning and is left out.
\<close>

record sync_error =
  err_agent_id :: "uuid option"
  err_agent_name :: "string option"
  err_board_id :: "uuid option"
  err_message :: string

record sync_result =
  result_gateway_id :: uuid
  result_include_main :: bool
  result_reset_sessions :: bool
  agents_updated :: nat
  agents_skipped :: nat
  main_updated :: bool
  errors :: "sync_error list"

record sync_options =
  include_main :: bool
  reset_sessions :: bool
  rotate_tokens :: bool
  force_bootstrap :: bool
  only_board_id :: "uuid option"

definition GatewayTemplatesSyncError ::
  "uuid option \<Rightarrow> string option \<Rightarrow> uuid option \<Rightarrow> string \<Rightarrow> sync_error" where
  "GatewayTemplatesSyncError a n b m =
     \<lparr>err_agent_id = a, err_agent_name = n, err_board_id = b, err_message = m\<rparr>"

definition append_error :: "sync_error \<Rightarrow> sync_result \<Rightarrow> sync_result" where
  \<comment> \<open>\<open>result.errors.append(e)\<close>\<close>
  "append_error e result = result\<lparr>errors := errors result @ [e]\<rparr>"

definition skipped :: "sync_result \<Rightarrow> sync_result" where
  \<comment> \<open>\<open>result.agents_skipped += 1\<close>\<close>
  "skipped result = result\<lparr>agents_skipped := agents_skipped result + 1\<rparr>"

definition updated :: "sync_result \<Rightarrow> sync_result" where
  \<comment> \<open>\<open>result.agents_updated += 1\<close>\<close>
  "updated result = result\<lparr>agents_updated := agents_updated result + 1\<rparr>"

type_synonym sync_state = "sync_result \<times> backoff \<times> world"

datatype 'a outcome =
    Next 'a
  | Return 'a
  | Raise exc 'a

datatype token_outcome =
    TokenNext sync_result world
  | TokenReturn sync_result world
  | TokenRaise exc sync_result world
  | TokenOk string sync_result world

definition provision_agent ::
  "env \<Rightarrow> agent \<Rightarrow> board \<Rightarrow> string \<Rightarrow> bool \<Rightarrow> bool \<Rightarrow> unit action" where
  \<comment> \<open>Modelled from the spec: \<open>provision_agent(..., action="update")\<close> is not among the
      sources; the spec has it re-provision the agent's workspace files against the
      gateway, honouring the two flags, and fail with an adapter-level error. It is one
      call of the gateway oracle, which answers with a value or an exception.\<close>
  "provision_agent ev a board auth_token force reset_session w =
     (case openclaw_call ev
             (ProvisionAgent (agent_id a) (board_id board) auth_token force reset_session) w of
        (Inl e, w') \<Rightarrow> (Inl e, w')
      | (Inr p, w') \<Rightarrow> (Inr (), w'))"

definition provision_main_agent ::
  "env \<Rightarrow> agent \<Rightarrow> string \<Rightarrow> bool \<Rightarrow> bool \<Rightarrow> unit action" where
  \<comment> \<open>Modelled from the spec: \<open>provision_main_agent(..., action="update")\<close>, as
      \<open>provision_agent\<close> without a board.\<close>
  "provision_main_agent ev a auth_token force reset_session w =
     (case openclaw_call ev (ProvisionMainAgent (agent_id a) auth_token force reset_session) w of
        (Inl e, w') \<Rightarrow> (Inl e, w')
      | (Inr p, w') \<Rightarrow> (Inr (), w'))"

definition agent_gateway_id :: "env \<Rightarrow> agent \<Rightarrow> world \<Rightarrow> string \<times> world" where
  \<comment> \<open>\<open>_gateway_agent_id(agent)\<close> with the value of \<open>uuid4().hex\<close> taken from the
      environment; the counter of the draws moves at every call, used or not\<close>
  "agent_gateway_id ev a w =
     (gateway_agent_id (env_uuid_hex ev (uuid_draws w)) a,
      w\<lparr>uuid_draws := Suc (uuid_draws w)\<rparr>)"

definition rekey :: "env \<Rightarrow> uuid \<Rightarrow> world \<Rightarrow> (exc + string) \<times> world" where
  \<comment> \<open>the six lines from \<open>raw_token = generate_agent_token()\<close> to \<open>auth_token = raw_token\<close>,
      four times in the source: a new token, its hash stored in the agent's row, the commit\<close>
  "rekey ev aid w =
     (let raw_token = generate_agent_token (env_token_bytes ev (secret_draws w));
          salt_bytes = env_salt_bytes ev (Suc (secret_draws w));
          w1 = w\<lparr>secret_draws := secret_draws w + 2\<rparr>
      in case hash_agent_token (env_kdf ev) salt_bytes raw_token of
           Inl e \<Rightarrow> (Inl e, w1)
         | Inr h \<Rightarrow>
             (Inr raw_token,
              w1\<lparr>token_hashes := (token_hashes w1)(aid \<mapsto> h), commits := commits w1 @ [aid]\<rparr>))"

definition token_drift :: "env \<Rightarrow> world \<Rightarrow> uuid \<Rightarrow> string \<Rightarrow> exc + bool" where
  \<comment> \<open>\<open>agent.agent_token_hash and not verify_agent_token(auth_token, agent.agent_token_hash)\<close>\<close>
  "token_drift ev w aid auth_token =
     (case token_hashes w aid of
        None \<Rightarrow> Inr False
      | Some h \<Rightarrow>
          if h = [] then Inr False
          else (case verify_agent_token (env_kdf ev) auth_token h of
                  Inl e \<Rightarrow> Inl e
                | Inr ok \<Rightarrow> Inr (\<not> ok)))"

definition verify_or_rekey ::
  "env \<Rightarrow> bool \<Rightarrow> uuid \<Rightarrow> sync_error \<Rightarrow> string \<Rightarrow> sync_result \<Rightarrow> world \<Rightarrow> token_outcome" where
  \<comment> \<open>the block \<open>if agent.agent_token_hash and not verify_agent_token(...)\<close>, with the
      warning entry of its \<open>else\<close>\<close>
  "verify_or_rekey ev rot aid warning auth_token result w =
     (case token_drift ev w aid auth_token of
        Inl e \<Rightarrow> TokenRaise e result w
      | Inr drift \<Rightarrow>
          if drift
          then (if rot
                then (case rekey ev aid w of
                        (Inl e, w1) \<Rightarrow> TokenRaise e result w1
                      | (Inr raw_token, w1) \<Rightarrow> TokenOk raw_token result w1)
                else TokenOk auth_token (append_error warning result) w)
          else TokenOk auth_token result w)"

definition agent_token_step ::
  "env \<Rightarrow> bool \<Rightarrow> agent \<Rightarrow> board \<Rightarrow> string option \<Rightarrow> sync_result \<Rightarrow> world \<Rightarrow> token_outcome"
  where
  \<comment> \<open>lines 397 to 435: from \<open>if not auth_token\<close> to the warning\<close>
  "agent_token_step ev rot a board auth_token result w =
     (let entry = GatewayTemplatesSyncError (Some (agent_id a)) (Some (agent_name a))
                    (Some (board_id board));
          warning = entry ''Warning: AUTH_TOKEN in TOOLS.md does not match backend token hash (agent auth may be broken).''
      in if auth_token = None \<or> auth_token = Some []
         then (if \<not> rot
               then TokenNext
                      (append_error
                         (entry ''Skipping agent: unable to read AUTH_TOKEN from TOOLS.md (run with rotate_tokens=true to re-key).'')
                         (skipped result)) w
               else (case rekey ev (agent_id a) w of
                       (Inl e, w1) \<Rightarrow> TokenRaise e result w1
                     | (Inr raw_token, w1) \<Rightarrow>
                         verify_or_rekey ev rot (agent_id a) warning raw_token result w1))
         else (case auth_token of
                 None \<Rightarrow> TokenNext result w
               | Some t \<Rightarrow> verify_or_rekey ev rot (agent_id a) warning t result w))"

definition sync_agent ::
  "nat \<Rightarrow> env \<Rightarrow> sync_options \<Rightarrow> (uuid \<times> board) list \<Rightarrow> uuid set \<Rightarrow> agent \<Rightarrow> sync_state
     \<Rightarrow> sync_state outcome option" where
  \<comment> \<open>the body of \<open>for agent in agents\<close>; \<open>None\<close> is a backoff still running\<close>
  "sync_agent fuel ev opts boards_by_id paused a st =
     (case st of (result, b, w) \<Rightarrow>
      (case (case agent_board_id a of None \<Rightarrow> None | Some i \<Rightarrow> map_of boards_by_id i) of
         None \<Rightarrow>
           Some (Next (append_error
                         (GatewayTemplatesSyncError (Some (agent_id a)) (Some (agent_name a))
                            (agent_board_id a) ''Skipping agent: board not found for agent.'')
                         (skipped result), b, w))
       | Some board \<Rightarrow>
           if board_id board \<in> paused then Some (Next (skipped result, b, w))
           else
             (let entry = GatewayTemplatesSyncError (Some (agent_id a)) (Some (agent_name a))
                            (Some (board_id board));
                  (gid, w0) = agent_gateway_id ev a w
              in case get_existing_auth_token fuel ev b gid w0 of
                   None \<Rightarrow> None
                 | Some (Inl e, b1, w1) \<Rightarrow>
                     if isinstance (exc_cls e) TimeoutError
                     then Some (Return (append_error (entry (str_exc e)) result, b1, w1))
                     else Some (Raise e (result, b1, w1))
                 | Some (Inr auth_token, b1, w1) \<Rightarrow>
                     (case agent_token_step ev (rotate_tokens opts) a board auth_token result w1 of
                        TokenNext result2 w2 \<Rightarrow> Some (Next (result2, b1, w2))
                      | TokenReturn result2 w2 \<Rightarrow> Some (Return (result2, b1, w2))
                      | TokenRaise e result2 w2 \<Rightarrow> Some (Raise e (result2, b1, w2))
                      | TokenOk auth_token_value result2 w2 \<Rightarrow>
                          (case with_gateway_retry fuel ev
                                  (provision_agent ev a board auth_token_value
                                     (force_bootstrap opts) (reset_sessions opts)) b1 w2 of
                             None \<Rightarrow> None
                           | Some (Inr u, b3, w3) \<Rightarrow> Some (Next (updated result2, b3, w3))
                           | Some (Inl e, b3, w3) \<Rightarrow>
                               if isinstance (exc_cls e) TimeoutError
                               then Some (Return (append_error (entry (str_exc e))
                                                    (skipped result2), b3, w3))
                               else if isinstance (exc_cls e) OSError
                                       \<or> isinstance (exc_cls e) RuntimeError
                                       \<or> isinstance (exc_cls e) ValueError
                               then Some (Next (append_error
                                                  (entry (''Failed to sync templates: '' @ str_exc e))
                                                  (skipped result2), b3, w3))
                               else Some (Raise e (result2, b3, w3)))))))"

fun sync_agents ::
  "nat \<Rightarrow> env \<Rightarrow> sync_options \<Rightarrow> (uuid \<times> board) list \<Rightarrow> uuid set \<Rightarrow> agent list \<Rightarrow> sync_state
     \<Rightarrow> sync_state outcome option" where
  \<comment> \<open>\<open>for agent in agents\<close>\<close>
  "sync_agents fuel ev opts boards_by_id paused [] st = Some (Next st)"
| "sync_agents fuel ev opts boards_by_id paused (a # rest) st =
     (case sync_agent fuel ev opts boards_by_id paused a st of
        None \<Rightarrow> None
      | Some (Next st') \<Rightarrow> sync_agents fuel ev opts boards_by_id paused rest st'
      | Some (Return st') \<Rightarrow> Some (Return st')
      | Some (Raise e st') \<Rightarrow> Some (Raise e st'))"

definition main_token_step ::
  "env \<Rightarrow> bool \<Rightarrow> agent \<Rightarrow> string option \<Rightarrow> sync_result \<Rightarrow> world \<Rightarrow> token_outcome" where
  \<comment> \<open>lines 536 to 573: the same for the main agent, where a missing token ends the sync\<close>
  "main_token_step ev rot a main_token result w =
     (let entry = GatewayTemplatesSyncError (Some (agent_id a)) (Some (agent_name a)) None;
          warning = entry ''Warning: AUTH_TOKEN in TOOLS.md does not match backend token hash (main agent auth may be broken).''
      in if main_token = None \<or> main_token = Some []
         then (if rot
               then (case rekey ev (agent_id a) w of
                       (Inl e, w1) \<Rightarrow> TokenRaise e result w1
                     | (Inr raw_token, w1) \<Rightarrow>
                         verify_or_rekey ev rot (agent_id a) warning raw_token result w1)
               else TokenReturn
                      (append_error
                         (entry ''Skipping main agent: unable to read AUTH_TOKEN from TOOLS.md.'')
                         result) w)
         else (case main_token of
                 None \<Rightarrow> TokenReturn result w
               | Some t \<Rightarrow> verify_or_rekey ev rot (agent_id a) warning t result w))"

definition sync_main ::
  "nat \<Rightarrow> env \<Rightarrow> sync_options \<Rightarrow> database \<Rightarrow> gateway \<Rightarrow> sync_state \<Rightarrow> sync_state outcome option"
  where
  \<comment> \<open>the block under \<open>if include_main\<close>, up to the last \<open>return result\<close>\<close>
  "sync_main fuel ev opts d gw st =
     (case st of (result, b, w) \<Rightarrow>
      (case find (\<lambda>a. openclaw_session_id a = Some (main_session_key gw))
              (map snd (db_agents d)) of
         None \<Rightarrow>
           Some (Return (append_error
                           (GatewayTemplatesSyncError None None None
                              ''Gateway main agent record not found; skipping main agent template sync.'')
                           result, b, w))
       | Some main_agent \<Rightarrow>
           (let entry = GatewayTemplatesSyncError (Some (agent_id main_agent))
                          (Some (agent_name main_agent)) None
            in case gateway_default_agent_id fuel ev b (Some (main_session_key gw)) w of
                 None \<Rightarrow> None
               | Some (Inl e, b1, w1) \<Rightarrow>
                   if isinstance (exc_cls e) TimeoutError
                   then Some (Return (append_error (entry (str_exc e)) result, b1, w1))
                   else Some (Raise e (result, b1, w1))
               | Some (Inr main_gateway_agent_id, b1, w1) \<Rightarrow>
                   (case (case main_gateway_agent_id of
                            None \<Rightarrow> None
                          | Some i \<Rightarrow> if i = [] then None else Some i) of
                      None \<Rightarrow>
                        Some (Return (append_error
                                        (entry ''Unable to resolve gateway default agent id for main agent.'')
                                        result, b1, w1))
                    | Some gid \<Rightarrow>
                        (case get_existing_auth_token fuel ev b1 gid w1 of
                           None \<Rightarrow> None
                         | Some (Inl e, b2, w2) \<Rightarrow>
                             if isinstance (exc_cls e) TimeoutError
                             then Some (Return (append_error (entry (str_exc e)) result, b2, w2))
                             else Some (Raise e (result, b2, w2))
                         | Some (Inr main_token, b2, w2) \<Rightarrow>
                             (case main_token_step ev (rotate_tokens opts) main_agent main_token
                                     result w2 of
                                TokenNext result3 w3 \<Rightarrow> Some (Return (result3, b2, w3))
                              | TokenReturn result3 w3 \<Rightarrow> Some (Return (result3, b2, w3))
                              | TokenRaise e result3 w3 \<Rightarrow> Some (Raise e (result3, b2, w3))
                              | TokenOk token result3 w3 \<Rightarrow>
                                  (case with_gateway_retry fuel ev
                                          (provision_main_agent ev main_agent token
                                             (force_bootstrap opts) (reset_sessions opts))
                                          b2 w3 of
                                     None \<Rightarrow> None
                                   | Some (Inr u, b4, w4) \<Rightarrow>
                                       Some (Return (result3\<lparr>main_updated := True\<rparr>, b4, w4))
                                   | Some (Inl e, b4, w4) \<Rightarrow>
                                       if isinstance (exc_cls e) TimeoutError
                                       then Some (Return (append_error (entry (str_exc e))
                                                            result3, b4, w4))
                                       else if isinstance (exc_cls e) OSError
                                               \<or> isinstance (exc_cls e) RuntimeError
                                               \<or> isinstance (exc_cls e) ValueError
                                       then Some (Return
                                                    (append_error
                                                       (entry (''Failed to sync main agent templates: ''
                                                               @ str_exc e))
                                                       result3, b4, w4))
                                       else Some (Raise e (result3, b4, w4)))))))))"

definition gateway_boards :: "database \<Rightarrow> gateway \<Rightarrow> (uuid \<times> board) list" where
  \<comment> \<open>\<open>boards_by_id\<close> as the dict comprehension builds it\<close>
  "gateway_boards d gw =
     fold (\<lambda>board m. dict_set (board_id board) board m)
       (filter (\<lambda>board. board_gateway_id board = Some (gateway_id gw)) (db_boards d)) []"

definition board_agents :: "database \<Rightarrow> (uuid \<times> board) list \<Rightarrow> agent list" where
  \<comment> \<open>the agents of the boards in scope, oldest first\<close>
  "board_agents d boards_by_id =
     (if boards_by_id \<noteq> []
      then map snd
             (sort_key fst
                (filter (\<lambda>(t, a). case agent_board_id a of
                                    None \<Rightarrow> False
                                  | Some i \<Rightarrow> i \<in> set (map fst boards_by_id))
                   (db_agents d)))
      else [])"

definition finish :: "sync_state outcome \<Rightarrow> (exc + sync_result) \<times> world" where
  \<comment> \<open>what the caller gets: the result, or the exception that left the function\<close>
  "finish out =
     (case out of
        Next (result, b, w) \<Rightarrow> (Inr result, w)
      | Return (result, b, w) \<Rightarrow> (Inr result, w)
      | Raise e (result, b, w) \<Rightarrow> (Inl e, w))"

definition sync_gateway_templates ::
  "nat \<Rightarrow> env \<Rightarrow> database \<Rightarrow> gateway \<Rightarrow> sync_options \<Rightarrow> world
     \<Rightarrow> ((exc + sync_result) \<times> world) option" where
  "sync_gateway_templates fuel ev d gw opts w =
     (let result = \<lparr>result_gateway_id = gateway_id gw,
                    result_include_main = include_main opts,
                    result_reset_sessions = reset_sessions opts,
                    agents_updated = 0, agents_skipped = 0, main_updated = False,
                    errors = []\<rparr>
      in if gateway_url gw = None \<or> gateway_url gw = Some []
         then Some (Inr (append_error
                           (GatewayTemplatesSyncError None None None
                              ''Gateway URL is not configured for this gateway.'') result), w)
         else
           (case run fuel ev (GatewayBackoff (10 * 60)) (openclaw_call ev AgentsList) w of
              None \<Rightarrow> None
            | Some (Inl e, b, w1) \<Rightarrow>
                if isinstance (exc_cls e) TimeoutError
                   \<or> isinstance (exc_cls e) OpenClawGatewayError
                then Some (Inr (append_error
                                  (GatewayTemplatesSyncError None None None (str_exc e))
                                  result), w1)
                else Some (Inl e, w1)
            | Some (Inr p, b, w1) \<Rightarrow>
                (case (case only_board_id opts of
                         None \<Rightarrow> Inr (gateway_boards d gw)
                       | Some i \<Rightarrow>
                           (case map_of (gateway_boards d gw) i of
                              None \<Rightarrow> Inl i
                            | Some board \<Rightarrow> Inr [(i, board)])) of
                   Inl i \<Rightarrow>
                     Some (Inr (append_error
                                  (GatewayTemplatesSyncError None None (Some i)
                                     ''Board does not belong to this gateway.'') result), w1)
                 | Inr boards_by_id \<Rightarrow>
                     (case sync_agents fuel ev opts boards_by_id
                             (paused_board_ids (db_board_memory d) (map fst boards_by_id))
                             (board_agents d boards_by_id) (result, b, w1) of
                        None \<Rightarrow> None
                      | Some (Next st) \<Rightarrow>
                          if include_main opts
                          then (case sync_main fuel ev opts d gw st of
                                  None \<Rightarrow> None
                                | Some out \<Rightarrow> Some (finish out))
                          else Some (finish (Next st))
                      | Some out \<Rightarrow> Some (finish out)))))"

section \<open>Properties of the string functions\<close>

lemma startswith_iff: "startswith s p \<longleftrightarrow> (\<exists>post. s = p @ post)"
  by (induction s p rule: startswith.induct) auto

lemma contains_iff: "contains s m \<longleftrightarrow> (\<exists>pre post. s = pre @ m @ post)"
proof (induction s)
  case Nil
  then show ?case by auto
next
  case (Cons c cs)
  show ?case
  proof
    assume "contains (c # cs) m"
    then consider "startswith (c # cs) m" | "contains cs m" by auto
    then show "\<exists>pre post. c # cs = pre @ m @ post"
    proof cases
      case 1
      then obtain post where "c # cs = m @ post" by (auto simp: startswith_iff)
      then have "c # cs = [] @ m @ post" by simp
      then show ?thesis by blast
    next
      case 2
      then obtain pre post where "cs = pre @ m @ post" using Cons.IH by auto
      then have "c # cs = (c # pre) @ m @ post" by simp
      then show ?thesis by blast
    qed
  next
    assume "\<exists>pre post. c # cs = pre @ m @ post"
    then obtain pre post where e: "c # cs = pre @ m @ post" by auto
    show "contains (c # cs) m"
    proof (cases pre)
      case Nil
      then have "startswith (c # cs) m" using e by (auto simp: startswith_iff)
      then show ?thesis by simp
    next
      case (Cons a pre')
      then have "cs = pre' @ m @ post" using e by simp
      then have "contains cs m" using Cons.IH by auto
      then show ?thesis by simp
    qed
  qed
qed

subsection \<open>split\<close>

lemma split_on_nonempty [simp]: "split_on d s \<noteq> []"
  by (induction s) (auto split: list.splits)

lemma split_on_no_sep: "d \<notin> set s \<Longrightarrow> split_on d s = [s]"
  by (induction s) (auto split: list.splits)

lemma split_on_append_sep:
  "d \<notin> set p \<Longrightarrow> split_on d (p @ d # r) = p # split_on d r"
  by (induction p) (auto split: list.splits)

lemma split_on_agent_prefix:
  "startswith k ''agent:'' \<Longrightarrow> \<exists>r. k = ''agent:'' @ r \<and> split_on CHR '':'' k = ''agent'' # split_on CHR '':'' r"
proof -
  assume "startswith k ''agent:''"
  then obtain r where k: "k = ''agent:'' @ r" by (auto simp: startswith_iff)
  have "split_on CHR '':'' (''agent'' @ CHR '':'' # r) = ''agent'' # split_on CHR '':'' r"
    by (rule split_on_append_sep) simp
  with k show ?thesis by simp
qed

lemma split_on_two_parts:
  "startswith k ''agent:'' \<Longrightarrow> length (split_on CHR '':'' k) \<ge> 2"
proof -
  assume "startswith k ''agent:''"
  then obtain r where "split_on CHR '':'' k = ''agent'' # split_on CHR '':'' r"
    using split_on_agent_prefix by blast
  then show ?thesis by (cases "split_on CHR '':'' r") auto
qed

lemma split_on_second:
  assumes "CHR '':'' \<notin> set seg" "rest = [] \<or> hd rest = CHR '':''"
  shows "split_on CHR '':'' (''agent:'' @ seg @ rest) ! 1 = seg"
proof -
  have a: "split_on CHR '':'' (''agent'' @ CHR '':'' # (seg @ rest)) = ''agent'' # split_on CHR '':'' (seg @ rest)"
    by (rule split_on_append_sep) simp
  have "hd (split_on CHR '':'' (seg @ rest)) = seg"
  proof (cases rest)
    case Nil
    then show ?thesis using assms(1) by (simp add: split_on_no_sep)
  next
    case (Cons x xs)
    then have "x = CHR '':''" using assms(2) by simp
    then show ?thesis using Cons assms(1) by (simp add: split_on_append_sep)
  qed
  then show ?thesis using a by (cases "split_on CHR '':'' (seg @ rest)") auto
qed

subsection \<open>slug\<close>

lemma filter_dropWhile_not: "filter P (dropWhile (\<lambda>x. \<not> P x) xs) = filter P xs"
  by (induction xs) auto

lemma sub_non_slug_chars: "c \<in> set (sub_non_slug s) \<Longrightarrow> is_slug_char c \<or> c = CHR ''-''"
proof (induction s rule: sub_non_slug.induct)
  case 1
  then show ?case by simp
next
  case (2 x xs)
  then show ?case by (auto split: if_splits dest: set_dropWhileD)
qed

lemma sub_non_slug_filter: "filter is_slug_char (sub_non_slug s) = filter is_slug_char s"
proof (induction s rule: sub_non_slug.induct)
  case 1
  then show ?case by simp
next
  case (2 c cs)
  have h: "\<not> is_slug_char CHR ''-''" by (simp add: is_slug_char_def)
  show ?case using 2 h by (simp add: filter_dropWhile_not)
qed

lemma sub_non_slug_head:
  "s = [] \<or> is_slug_char (hd s) \<Longrightarrow> \<not> startswith (sub_non_slug s) ''-''"
  by (cases s) (auto simp: is_slug_char_def)

lemma dropWhile_head: "dropWhile (\<lambda>x. \<not> P x) xs = [] \<or> P (hd (dropWhile (\<lambda>x. \<not> P x) xs))"
  using hd_dropWhile[of "\<lambda>x. \<not> P x" xs] by auto

lemma sub_non_slug_no_double: "\<not> contains (sub_non_slug s) ''--''"
proof (induction s rule: sub_non_slug.induct)
  case 1
  then show ?case by simp
next
  case (2 c cs)
  show ?case
  proof (cases "is_slug_char c")
    case True
    then have "c \<noteq> CHR ''-''" by (auto simp: is_slug_char_def)
    then show ?thesis using 2 True by simp
  next
    case False
    let ?d = "dropWhile (\<lambda>x. \<not> is_slug_char x) cs"
    have "\<not> startswith (sub_non_slug ?d) ''-''"
      by (rule sub_non_slug_head) (rule dropWhile_head)
    then have "\<not> startswith (CHR ''-'' # sub_non_slug ?d) ''--''" by simp
    then show ?thesis using 2 False by simp
  qed
qed

lemma strip_by_split:
  "t = takeWhile p t @ strip_by p t @ rev (takeWhile p (rev (dropWhile p t)))"
proof -
  let ?d = "dropWhile p t"
  have 1: "t = takeWhile p t @ ?d" by simp
  have "?d = rev (takeWhile p (rev ?d) @ dropWhile p (rev ?d))"
    by (simp only: takeWhile_dropWhile_id rev_rev_ident)
  also have "\<dots> = rev (dropWhile p (rev ?d)) @ rev (takeWhile p (rev ?d))"
    by (simp only: rev_append)
  finally have 2: "?d = strip_by p t @ rev (takeWhile p (rev ?d))"
    by (simp only: strip_by_def rstrip_by_def lstrip_by_def)
  show ?thesis using 1 2 by metis
qed

lemma strip_by_ends:
  assumes "strip_by p t \<noteq> []"
  shows "\<not> p (hd (strip_by p t)) \<and> \<not> p (last (strip_by p t))"
proof -
  let ?d = "dropWhile p t"
  let ?e = "dropWhile p (rev ?d)"
  have s: "strip_by p t = rev ?e" by (simp add: strip_by_def rstrip_by_def lstrip_by_def)
  have e: "?e \<noteq> []" using assms s by simp
  have d: "?d \<noteq> []"
  proof
    assume a: "?d = []"
    have "?e = []" unfolding a by simp
    with e show False by simp
  qed
  have "last (rev ?e) = hd ?e" using e by (simp add: last_rev)
  moreover have "\<not> p (hd ?e)" using e hd_dropWhile by blast
  ultimately have l: "\<not> p (last (strip_by p t))" using s by simp
  have "last (takeWhile p (rev ?d) @ ?e) = last ?e" using e by (rule last_appendR)
  then have "last (rev ?d) = last ?e" by (simp only: takeWhile_dropWhile_id)
  then have "hd ?d = last ?e" using d by (simp add: last_rev)
  moreover have "hd (rev ?e) = last ?e" using e by (simp add: hd_rev)
  moreover have "\<not> p (hd ?d)" using d hd_dropWhile by blast
  ultimately have "\<not> p (hd (strip_by p t))" using s by simp
  with l show ?thesis by simp
qed

lemma filter_all_not: "(\<forall>c \<in> set xs. \<not> Q c) \<Longrightarrow> filter Q xs = []"
  by (induction xs) auto

lemma slug_candidate:
  fixes v :: string
  defines "s \<equiv> strip_by (\<lambda>c. c = CHR ''-'') (sub_non_slug (lower v))"
  shows "filter is_slug_char s = filter is_slug_char (lower v)"
    and "\<forall>c \<in> set s. is_slug_char c \<or> c = CHR ''-''"
    and "\<not> contains s ''--''"
    and "s \<noteq> [] \<longrightarrow> hd s \<noteq> CHR ''-'' \<and> last s \<noteq> CHR ''-''"
    and "s = [] \<longleftrightarrow> \<not> (\<exists>c \<in> set (lower v). is_slug_char c)"
proof -
  define t where "t = sub_non_slug (lower v)"
  define p where "p = (\<lambda>c. c = CHR ''-'')"
  define pre where "pre = takeWhile p t"
  define post where "post = rev (takeWhile p (rev (dropWhile p t)))"
  have s: "s = strip_by p t" by (simp add: s_def t_def p_def)
  have d: "t = pre @ s @ post" unfolding s pre_def post_def by (rule strip_by_split)
  have pre: "c = CHR ''-''" if "c \<in> set pre" for c
    using that set_takeWhileD[of c p t] by (simp add: pre_def p_def)
  have post: "c = CHR ''-''" if "c \<in> set post" for c
    using that set_takeWhileD[of c p "rev (dropWhile p t)"] by (simp add: post_def p_def)
  have h: "\<not> is_slug_char CHR ''-''" by (simp add: is_slug_char_def)
  have fp: "filter is_slug_char pre = []"
  proof (rule filter_all_not, rule ballI)
    fix c assume "c \<in> set pre"
    then show "\<not> is_slug_char c" using pre h by simp
  qed
  have fq: "filter is_slug_char post = []"
  proof (rule filter_all_not, rule ballI)
    fix c assume "c \<in> set post"
    then show "\<not> is_slug_char c" using post h by simp
  qed
  have "filter is_slug_char t = filter is_slug_char (pre @ s @ post)" using d by simp
  then have "filter is_slug_char t = filter is_slug_char s" using fp fq by simp
  then show f: "filter is_slug_char s = filter is_slug_char (lower v)"
    by (simp add: t_def sub_non_slug_filter)
  have c: "is_slug_char c \<or> c = CHR ''-''" if "c \<in> set s" for c
  proof -
    have "c \<in> set (pre @ s @ post)" using that by simp
    then have "c \<in> set (sub_non_slug (lower v))" using d t_def by simp
    then show ?thesis by (rule sub_non_slug_chars)
  qed
  then show "\<forall>c \<in> set s. is_slug_char c \<or> c = CHR ''-''" by (rule ballI)
  show "\<not> contains s ''--''"
  proof
    assume "contains s ''--''"
    then obtain a b where ab: "s = a @ ''--'' @ b" unfolding contains_iff by (elim exE)
    have "pre @ s @ post = (pre @ a) @ ''--'' @ (b @ post)" unfolding ab by simp
    then have "t = (pre @ a) @ ''--'' @ (b @ post)" using d by simp
    then have "\<exists>x y. t = x @ ''--'' @ y" by (intro exI)
    then have "contains (sub_non_slug (lower v)) ''--''" unfolding contains_iff t_def .
    then show False using sub_non_slug_no_double[of "lower v"] by simp
  qed
  show e: "s \<noteq> [] \<longrightarrow> hd s \<noteq> CHR ''-'' \<and> last s \<noteq> CHR ''-''"
    using strip_by_ends[of p t] by (simp add: s p_def)
  show "s = [] \<longleftrightarrow> \<not> (\<exists>c \<in> set (lower v). is_slug_char c)"
  proof
    assume "s = []"
    then have "filter is_slug_char (lower v) = []" using f by simp
    then show "\<not> (\<exists>c \<in> set (lower v). is_slug_char c)" by (simp add: filter_empty_conv)
  next
    assume n: "\<not> (\<exists>c \<in> set (lower v). is_slug_char c)"
    then have fe: "filter is_slug_char s = []" using f by (simp add: filter_empty_conv)
    show "s = []"
    proof (rule ccontr)
      assume ne: "s \<noteq> []"
      then have m: "hd s \<in> set s" by simp
      have "hd s \<noteq> CHR ''-''" using e ne by simp
      then have "is_slug_char (hd s)" using c[OF m] by simp
      then have "hd s \<in> set (filter is_slug_char s)" using m by simp
      then show False using fe by simp
    qed
  qed
qed

section \<open>Classification of gateway errors\<close>

lemma contains_lower_part:
  "lower v = w \<Longrightarrow> contains (lower (pre @ v @ post)) w"
  unfolding contains_iff lower_def by (metis map_append)

text \<open>
  The gateway error with the message
  "Connection refused while uploading: unsupported file type" holds "Connection refused"
  and is not transient: the non-transient markers are tested first.
\<close>

theorem transient_connection_refused_counterexample:
  "contains ''Connection refused while uploading: unsupported file type'' ''Connection refused''
   \<and> \<not> is_transient_gateway_error
        (Exc OpenClawGatewayError
           ''Connection refused while uploading: unsupported file type'' None)"
  by (simp add: is_transient_gateway_error_def lower_def lower_char_def char_of_eq_iff
        NON_TRANSIENT_GATEWAY_ERROR_MARKERS_def)

text \<open>
  Claim C6, as the code has it. An error is transient exactly when it is a gateway error
  whose lower-cased message holds a transient signature (one of the nineteen markers, or
  both "503" and "websocket") and no non-transient signature ("unsupported file"). A
  gateway error whose message holds "Connection refused" in any spelling of upper and
  lower case is transient when the message holds no non-transient signature, and is not
  transient when it holds one; a gateway error whose message holds
  "unsupported file type: .bin" is not transient whatever surrounds it, a "timeout"
  included; an exception of another class is never transient.
\<close>

theorem transient_classification:
  "(is_transient_gateway_error (Exc k m c) \<longleftrightarrow>
      k = OpenClawGatewayError
      \<and> ((contains (lower m) ''503'' \<and> contains (lower m) ''websocket'')
         \<or> (\<exists>s \<in> set TRANSIENT_GATEWAY_ERROR_MARKERS. contains (lower m) s))
      \<and> \<not> (\<exists>s \<in> set NON_TRANSIENT_GATEWAY_ERROR_MARKERS. contains (lower m) s))
   \<and> (lower v = ''connection refused'' \<longrightarrow>
        is_transient_gateway_error (Exc OpenClawGatewayError (pre @ v @ post) c)
          = (\<not> contains (lower (pre @ v @ post)) ''unsupported file''))
   \<and> (lower u = ''unsupported file type: .bin'' \<longrightarrow>
        \<not> is_transient_gateway_error (Exc OpenClawGatewayError (pre' @ u @ post') c))
   \<and> (k' \<noteq> OpenClawGatewayError \<longrightarrow> \<not> is_transient_gateway_error (Exc k' m' c))
   \<and> TRANSIENT_GATEWAY_ERROR_MARKERS =
        [''connect call failed'', ''connection refused'', ''errno 111'', ''econnrefused'',
         ''did not receive a valid http response'', ''no route to host'',
         ''network is unreachable'', ''host is down'', ''name or service not known'',
         ''received 1012'', ''service restart'', ''http 503'', ''http 502'', ''http 504'',
         ''temporar'', ''timeout'', ''timed out'', ''connection closed'', ''connection reset'']
   \<and> NON_TRANSIENT_GATEWAY_ERROR_MARKERS = [''unsupported file'']"
proof (intro conjI impI)
  have inst: "isinstance k OpenClawGatewayError \<longleftrightarrow> k = OpenClawGatewayError" for k
    by (cases k) simp_all
  have empty: "\<not> contains [] s" if "s \<in> set TRANSIENT_GATEWAY_ERROR_MARKERS" for s
    using that by (auto simp: TRANSIENT_GATEWAY_ERROR_MARKERS_def)
  show char: "is_transient_gateway_error (Exc k m c) \<longleftrightarrow>
      k = OpenClawGatewayError
      \<and> ((contains (lower m) ''503'' \<and> contains (lower m) ''websocket'')
         \<or> (\<exists>s \<in> set TRANSIENT_GATEWAY_ERROR_MARKERS. contains (lower m) s))
      \<and> \<not> (\<exists>s \<in> set NON_TRANSIENT_GATEWAY_ERROR_MARKERS. contains (lower m) s)" for k m c
    using empty by (auto simp: is_transient_gateway_error_def inst list_ex_iff Let_def)
  {
    assume v: "lower v = ''connection refused''"
    have "contains (lower (pre @ v @ post)) ''connection refused''"
      using contains_lower_part[OF v] .
    then show "is_transient_gateway_error (Exc OpenClawGatewayError (pre @ v @ post) c)
          = (\<not> contains (lower (pre @ v @ post)) ''unsupported file'')"
      unfolding char
      by (auto simp: TRANSIENT_GATEWAY_ERROR_MARKERS_def NON_TRANSIENT_GATEWAY_ERROR_MARKERS_def)
  }
  {
    assume u: "lower u = ''unsupported file type: .bin''"
    have "contains (lower (pre' @ u @ post')) ''unsupported file type: .bin''"
      using contains_lower_part[OF u] .
    then obtain a b where "lower (pre' @ u @ post') = a @ ''unsupported file type: .bin'' @ b"
      unfolding contains_iff by (elim exE)
    then have "lower (pre' @ u @ post') = a @ ''unsupported file'' @ ('' type: .bin'' @ b)"
      by simp
    then have "\<exists>x y. lower (pre' @ u @ post') = x @ ''unsupported file'' @ y" by (intro exI)
    then have "contains (lower (pre' @ u @ post')) ''unsupported file''"
      unfolding contains_iff .
    then show "\<not> is_transient_gateway_error (Exc OpenClawGatewayError (pre' @ u @ post') c)"
      unfolding char by (simp add: NON_TRANSIENT_GATEWAY_ERROR_MARKERS_def)
  }
  {
    assume "k' \<noteq> OpenClawGatewayError"
    then show "\<not> is_transient_gateway_error (Exc k' m' c)" unfolding char by simp
  }
  show "TRANSIENT_GATEWAY_ERROR_MARKERS =
        [''connect call failed'', ''connection refused'', ''errno 111'', ''econnrefused'',
         ''did not receive a valid http response'', ''no route to host'',
         ''network is unreachable'', ''host is down'', ''name or service not known'',
         ''received 1012'', ''service restart'', ''http 503'', ''http 502'', ''http 504'',
         ''temporar'', ''timeout'', ''timed out'', ''connection closed'', ''connection reset'']"
    by (simp add: TRANSIENT_GATEWAY_ERROR_MARKERS_def)
  show "NON_TRANSIENT_GATEWAY_ERROR_MARKERS = [''unsupported file'']"
    by (simp add: NON_TRANSIENT_GATEWAY_ERROR_MARKERS_def)
qed

theorem transient_classification_witness:
  "is_transient_gateway_error (Exc OpenClawGatewayError ''Gateway said: HTTP 504'' None)
   \<and> lower ''Connection REFUSED'' = ''connection refused''
   \<and> is_transient_gateway_error
        (Exc OpenClawGatewayError (''[Errno 111] '' @ ''Connection REFUSED'' @ '' by host'') None)
   \<and> lower ''Unsupported file type: .bin'' = ''unsupported file type: .bin''
   \<and> \<not> is_transient_gateway_error
        (Exc OpenClawGatewayError (''timeout: '' @ ''Unsupported file type: .bin'' @ []) None)
   \<and> ValueError \<noteq> OpenClawGatewayError
   \<and> \<not> is_transient_gateway_error (Exc ValueError ''connection refused'' None)
   \<and> lower ''Connection refused'' = ''connection refused''
   \<and> \<not> is_transient_gateway_error
        (Exc OpenClawGatewayError
           ([] @ ''Connection refused'' @ '' while uploading: unsupported file type'') None)
   \<and> is_transient_gateway_error (Exc OpenClawGatewayError ''WebSocket handshake: 503'' None)
   \<and> \<not> is_transient_gateway_error (Exc OpenClawGatewayError ''invalid agent id'' None)
   \<and> \<not> is_transient_gateway_error (Exc OpenClawGatewayError [] None)"
proof -
  have l1: "lower ''Gateway said: HTTP 504'' = ''gateway said: http 504''"
    by (simp add: lower_def lower_char_def char_of_eq_iff)
  have l2: "lower ''Connection REFUSED'' = ''connection refused''"
    by (simp add: lower_def lower_char_def char_of_eq_iff)
  have l3: "lower (''[Errno 111] '' @ ''Connection REFUSED'' @ '' by host'')
      = ''[errno 111] connection refused by host''"
    by (simp add: lower_def lower_char_def char_of_eq_iff)
  have l4: "lower ''Unsupported file type: .bin'' = ''unsupported file type: .bin''"
    by (simp add: lower_def lower_char_def char_of_eq_iff)
  have l5: "lower ''Connection refused'' = ''connection refused''"
    by (simp add: lower_def lower_char_def char_of_eq_iff)
  have l6: "lower ([] @ ''Connection refused'' @ '' while uploading: unsupported file type'')
      = ''connection refused while uploading: unsupported file type''"
    by (simp add: lower_def lower_char_def char_of_eq_iff)
  have l7: "lower ''WebSocket handshake: 503'' = ''websocket handshake: 503''"
    by (simp add: lower_def lower_char_def char_of_eq_iff)
  have l8: "lower ''invalid agent id'' = ''invalid agent id''"
    by (simp add: lower_def lower_char_def char_of_eq_iff)
  have l9: "lower [] = []" by (simp add: lower_def)
  note iff = transient_classification[THEN conjunct1]
  note cr = transient_classification[THEN conjunct2, THEN conjunct1, rule_format]
  note uf = transient_classification[THEN conjunct2, THEN conjunct2, THEN conjunct1, rule_format]
  note oth = transient_classification
    [THEN conjunct2, THEN conjunct2, THEN conjunct2, THEN conjunct1, rule_format]
  note tm = transient_classification
    [THEN conjunct2, THEN conjunct2, THEN conjunct2, THEN conjunct2, THEN conjunct1]
  note nm = transient_classification
    [THEN conjunct2, THEN conjunct2, THEN conjunct2, THEN conjunct2, THEN conjunct2]
  have w1: "is_transient_gateway_error
      (Exc OpenClawGatewayError ''Gateway said: HTTP 504'' None)"
    unfolding iff l1 tm nm by simp
  have w2: "is_transient_gateway_error
        (Exc OpenClawGatewayError (''[Errno 111] '' @ ''Connection REFUSED'' @ '' by host'') None)"
    using cr[OF l2, of "''[Errno 111] ''" "'' by host''" None] unfolding l3 by simp
  have w3: "\<not> is_transient_gateway_error
        (Exc OpenClawGatewayError (''timeout: '' @ ''Unsupported file type: .bin'' @ []) None)"
    using uf[OF l4, of "''timeout: ''" "[]" None] .
  have n1: "ValueError \<noteq> OpenClawGatewayError" by simp
  have w4: "\<not> is_transient_gateway_error (Exc ValueError ''connection refused'' None)"
    using oth[OF n1, of "''connection refused''" None] .
  have w5: "\<not> is_transient_gateway_error
        (Exc OpenClawGatewayError
           ([] @ ''Connection refused'' @ '' while uploading: unsupported file type'') None)"
    using cr[OF l5, of "[]" "'' while uploading: unsupported file type''" None]
    unfolding l6 by simp
  have w6: "is_transient_gateway_error
      (Exc OpenClawGatewayError ''WebSocket handshake: 503'' None)"
    unfolding iff l7 tm nm by simp
  have w7: "\<not> is_transient_gateway_error (Exc OpenClawGatewayError ''invalid agent id'' None)"
    unfolding iff l8 tm nm by simp
  have w8: "\<not> is_transient_gateway_error (Exc OpenClawGatewayError [] None)"
    unfolding iff l9 tm nm by simp
  show ?thesis by (intro conjI w1 l2 w2 l4 w3 n1 w4 l5 w5 w6 w7 w8)
qed

section \<open>Gateway identity of an agent\<close>

text \<open>
  The session key "agent::main" starts with "agent:" and has three colon-delimited
  segments; its second segment is empty, and the identity is the slug of the name, not
  that segment.
\<close>

theorem gateway_identity_counterexample:
  "startswith ''agent::main'' ''agent:''
   \<and> length (split_on CHR '':'' ''agent::main'') \<ge> 2
   \<and> gateway_agent_id ''0f0f''
        \<lparr>agent_id = 1, agent_name = ''Ada Lovelace!!'', agent_board_id = None,
         openclaw_session_id = Some ''agent::main''\<rparr>
       \<noteq> split_on CHR '':'' ''agent::main'' ! 1"
  by (simp add: gateway_agent_id_def SESSION_KEY_PARTS_MIN_def slugify_def lower_def
        lower_char_def char_of_eq_iff is_slug_char_def strip_by_def rstrip_by_def lstrip_by_def)

text \<open>
  Claim C8, as the code has it. When the session key starts with "agent:" and its second
  colon-delimited segment is not empty, that segment is the identity; one segment after
  the prefix is enough ("agent:abc123" gives "abc123"). In every other case (no session
  key, another prefix, an empty second segment) the identity is the slug of the display
  name. The slug is the random identifier when the lower-cased name has no character of
  a-z or 0-9; otherwise it keeps exactly those characters of the lower-cased name, in
  order, has only hyphens between them, never two hyphens in a row, and no hyphen at
  either end. The session key "agent:abc123:main" gives "abc123", and the name
  "Ada Lovelace!!" with no session key gives "ada-lovelace".
\<close>

theorem gateway_identity:
  "(openclaw_session_id a = Some k \<and> startswith k ''agent:'' \<and> split_on CHR '':'' k ! 1 \<noteq> []
      \<longrightarrow> gateway_agent_id u a = split_on CHR '':'' k ! 1)
   \<and> (openclaw_session_id a1 = Some (''agent:'' @ seg @ rest) \<and> seg \<noteq> []
        \<and> CHR '':'' \<notin> set seg \<and> (rest = [] \<or> hd rest = CHR '':'')
      \<longrightarrow> gateway_agent_id u a1 = seg)
   \<and> (openclaw_session_id a2 = None
        \<or> (\<exists>k2. openclaw_session_id a2 = Some k2
                \<and> (\<not> startswith k2 ''agent:'' \<or> split_on CHR '':'' k2 ! 1 = []))
      \<longrightarrow> gateway_agent_id u a2 = slugify u (agent_name a2))
   \<and> slugify u v =
        (if \<exists>c \<in> set (lower v). is_slug_char c
         then strip_by (\<lambda>c. c = CHR ''-'') (sub_non_slug (lower v)) else u)
   \<and> filter is_slug_char (strip_by (\<lambda>c. c = CHR ''-'') (sub_non_slug (lower v)))
        = filter is_slug_char (lower v)
   \<and> (\<forall>c \<in> set (strip_by (\<lambda>c. c = CHR ''-'') (sub_non_slug (lower v))).
          is_slug_char c \<or> c = CHR ''-'')
   \<and> \<not> contains (strip_by (\<lambda>c. c = CHR ''-'') (sub_non_slug (lower v))) ''--''
   \<and> (strip_by (\<lambda>c. c = CHR ''-'') (sub_non_slug (lower v)) \<noteq> [] \<longrightarrow>
         hd (strip_by (\<lambda>c. c = CHR ''-'') (sub_non_slug (lower v))) \<noteq> CHR ''-''
         \<and> last (strip_by (\<lambda>c. c = CHR ''-'') (sub_non_slug (lower v))) \<noteq> CHR ''-'')
   \<and> gateway_agent_id u (a3\<lparr>openclaw_session_id := Some ''agent:abc123:main''\<rparr>) = ''abc123''
   \<and> gateway_agent_id u (a3\<lparr>openclaw_session_id := None, agent_name := ''Ada Lovelace!!''\<rparr>)
        = ''ada-lovelace''"
proof (intro conjI impI)
  assume h: "openclaw_session_id a = Some k \<and> startswith k ''agent:'' \<and> split_on CHR '':'' k ! 1 \<noteq> []"
  then have "length (split_on CHR '':'' k) \<ge> 2" using split_on_two_parts by simp
  then show "gateway_agent_id u a = split_on CHR '':'' k ! 1"
    using h by (simp add: gateway_agent_id_def SESSION_KEY_PARTS_MIN_def)
next
  assume h: "openclaw_session_id a1 = Some (''agent:'' @ seg @ rest) \<and> seg \<noteq> []
        \<and> CHR '':'' \<notin> set seg \<and> (rest = [] \<or> hd rest = CHR '':'')"
  let ?k = "''agent:'' @ seg @ rest"
  have s: "startswith ?k ''agent:''" by simp
  have l: "length (split_on CHR '':'' ?k) \<ge> 2" using s by (rule split_on_two_parts)
  have e: "split_on CHR '':'' ?k ! 1 = seg" using h by (intro split_on_second) simp_all
  have "gateway_agent_id u a1 =
     (if length (split_on CHR '':'' ?k) \<ge> 2 \<and> split_on CHR '':'' ?k ! 1 \<noteq> []
      then split_on CHR '':'' ?k ! 1 else slugify u (agent_name a1))"
    using h s unfolding gateway_agent_id_def SESSION_KEY_PARTS_MIN_def Let_def by simp
  then show "gateway_agent_id u a1 = seg" using l e h by simp
next
  assume h: "openclaw_session_id a2 = None
        \<or> (\<exists>k2. openclaw_session_id a2 = Some k2
                \<and> (\<not> startswith k2 ''agent:'' \<or> split_on CHR '':'' k2 ! 1 = []))"
  then show "gateway_agent_id u a2 = slugify u (agent_name a2)"
    by (auto simp: gateway_agent_id_def Let_def)
next
  show "slugify u v =
        (if \<exists>c \<in> set (lower v). is_slug_char c
         then strip_by (\<lambda>c. c = CHR ''-'') (sub_non_slug (lower v)) else u)"
    using slug_candidate(5)[of v] unfolding slugify_def Let_def by simp
next
  show "filter is_slug_char (strip_by (\<lambda>c. c = CHR ''-'') (sub_non_slug (lower v)))
        = filter is_slug_char (lower v)"
    by (rule slug_candidate(1))
next
  show "\<forall>c \<in> set (strip_by (\<lambda>c. c = CHR ''-'') (sub_non_slug (lower v))).
          is_slug_char c \<or> c = CHR ''-''"
    by (rule slug_candidate(2))
next
  show "\<not> contains (strip_by (\<lambda>c. c = CHR ''-'') (sub_non_slug (lower v))) ''--''"
    by (rule slug_candidate(3))
next
  assume "strip_by (\<lambda>c. c = CHR ''-'') (sub_non_slug (lower v)) \<noteq> []"
  then show "hd (strip_by (\<lambda>c. c = CHR ''-'') (sub_non_slug (lower v))) \<noteq> CHR ''-''"
    using slug_candidate(4)[of v] by simp
next
  assume "strip_by (\<lambda>c. c = CHR ''-'') (sub_non_slug (lower v)) \<noteq> []"
  then show "last (strip_by (\<lambda>c. c = CHR ''-'') (sub_non_slug (lower v))) \<noteq> CHR ''-''"
    using slug_candidate(4)[of v] by simp
next
  show "gateway_agent_id u (a3\<lparr>openclaw_session_id := Some ''agent:abc123:main''\<rparr>) = ''abc123''"
    by (simp add: gateway_agent_id_def SESSION_KEY_PARTS_MIN_def)
next
  show "gateway_agent_id u (a3\<lparr>openclaw_session_id := None, agent_name := ''Ada Lovelace!!''\<rparr>)
        = ''ada-lovelace''"
    by (simp add: gateway_agent_id_def slugify_def lower_def lower_char_def char_of_eq_iff
          is_slug_char_def strip_by_def rstrip_by_def lstrip_by_def)
qed

theorem gateway_identity_witness:
  "(startswith ''agent:abc123:main'' ''agent:''
      \<and> split_on CHR '':'' ''agent:abc123:main'' ! 1 \<noteq> []
      \<and> gateway_agent_id ''0f0f''
           \<lparr>agent_id = 1, agent_name = ''Ada'', agent_board_id = None,
            openclaw_session_id = Some ''agent:abc123:main''\<rparr> = ''abc123'')
   \<and> (''agent:abc123'' = ''agent:'' @ ''abc123'' @ []
      \<and> gateway_agent_id ''0f0f''
           \<lparr>agent_id = 2, agent_name = ''Ada'', agent_board_id = None,
            openclaw_session_id = Some ''agent:abc123''\<rparr> = ''abc123'')
   \<and> (split_on CHR '':'' ''agent::main'' ! 1 = []
      \<and> gateway_agent_id ''0f0f''
           \<lparr>agent_id = 3, agent_name = ''Ada Lovelace!!'', agent_board_id = None,
            openclaw_session_id = Some ''agent::main''\<rparr> = ''ada-lovelace'')
   \<and> slugify ''0f0f'' ''Ada Lovelace!!'' = ''ada-lovelace''
   \<and> slugify ''0f0f'' ''?!'' = ''0f0f''"
  using gateway_identity
    [of "\<lparr>agent_id = 1, agent_name = ''Ada'', agent_board_id = None,
            openclaw_session_id = Some ''agent:abc123:main''\<rparr>" "''agent:abc123:main''" "''0f0f''"
        "\<lparr>agent_id = 2, agent_name = ''Ada'', agent_board_id = None,
            openclaw_session_id = Some ''agent:abc123''\<rparr>" "''abc123''" "[]"
        "\<lparr>agent_id = 3, agent_name = ''Ada Lovelace!!'', agent_board_id = None,
            openclaw_session_id = Some ''agent::main''\<rparr>" "''Ada Lovelace!!''"]
    gateway_identity [of _ _ "''0f0f''" _ _ _ _ "''?!''"]
  by (simp add: slugify_def lower_def
        lower_char_def char_of_eq_iff is_slug_char_def strip_by_def rstrip_by_def lstrip_by_def)

section \<open>The provisioning message\<close>

lemma read_templates_get:
  "n \<in> set TEMPLATE_FILES \<Longrightarrow>
   read_templates dir n = Some (case dir n of Some text \<Rightarrow> strip text | None \<Rightarrow> [])"
  unfolding read_templates_def TEMPLATE_FILES_def by auto

lemma file_block_eq:
  assumes "n \<in> set TEMPLATE_FILES"
  shows "render_file_block n (case read_templates dir n of Some t \<Rightarrow> t | None \<Rightarrow> [])
     = ''\<newline>'' @ n @ ''\<newline>```md\<newline>''
       @ (case dir n of
            None \<Rightarrow> ''# '' @ n @ ''\<newline>\<newline>TODO: add content\<newline>''
          | Some text \<Rightarrow> if strip text = [] then ''# '' @ n @ ''\<newline>\<newline>TODO: add content\<newline>''
                         else strip text)
       @ ''\<newline>```\<newline>''"
  using read_templates_get[OF assms, of dir]
  by (simp add: render_file_block_def split: option.splits)

lemma contains_concat_map:
  "n \<in> set xs \<Longrightarrow> contains (pre @ concat (map f xs)) (f n)"
proof -
  assume "n \<in> set xs"
  then obtain ys zs where "xs = ys @ n # zs" by (auto simp: in_set_conv_decomp)
  then have "pre @ concat (map f xs) = (pre @ concat (map f ys)) @ f n @ concat (map f zs)"
    by simp
  then have "\<exists>x y. pre @ concat (map f xs) = x @ f n @ y" by (intro exI)
  then show ?thesis unfolding contains_iff .
qed

lemma rstrip_by_char_decomp:
  shows "\<exists>k. s = rstrip_by (\<lambda>c. c = x) s @ replicate k x"
    and "rstrip_by (\<lambda>c. c = x) s = [] \<or> last (rstrip_by (\<lambda>c. c = x) s) \<noteq> x"
proof -
  let ?p = "\<lambda>c. c = x"
  let ?t = "takeWhile ?p (rev s)"
  let ?d = "dropWhile ?p (rev s)"
  have "s = rev (?t @ ?d)" by (simp only: takeWhile_dropWhile_id rev_rev_ident)
  also have "\<dots> = rev ?d @ rev ?t" by (simp only: rev_append)
  finally have 1: "s = rstrip_by ?p s @ rev ?t" by (simp only: rstrip_by_def)
  have "c = x" if "c \<in> set (rev ?t)" for c
    using that set_takeWhileD[of c ?p "rev s"] by simp
  then have "rev ?t = replicate (length (rev ?t)) x"
    by (intro replicate_length_same[symmetric]) blast
  then have "s = rstrip_by ?p s @ replicate (length (rev ?t)) x" using 1 by simp
  then show "\<exists>k. s = rstrip_by ?p s @ replicate k x" by (rule exI)
  show "rstrip_by ?p s = [] \<or> last (rstrip_by ?p s) \<noteq> x"
  proof (cases "?d = []")
    case True
    then show ?thesis by (simp add: rstrip_by_def)
  next
    case False
    then have "\<not> ?p (hd ?d)" by (rule hd_dropWhile)
    moreover have "last (rev ?d) = hd ?d" using False by (simp add: last_rev)
    ultimately show ?thesis by (simp add: rstrip_by_def)
  qed
qed

lemma slugify_props:
  "if \<exists>c \<in> set (lower v). is_slug_char c
   then filter is_slug_char (slugify u v) = filter is_slug_char (lower v)
        \<and> (\<forall>c \<in> set (slugify u v). is_slug_char c \<or> c = CHR ''-'')
        \<and> \<not> contains (slugify u v) ''--''
        \<and> hd (slugify u v) \<noteq> CHR ''-'' \<and> last (slugify u v) \<noteq> CHR ''-''
   else slugify u v = u"
proof (cases "\<exists>c \<in> set (lower v). is_slug_char c")
  case True
  let ?s = "strip_by (\<lambda>c. c = CHR ''-'') (sub_non_slug (lower v))"
  have ne: "?s \<noteq> []" using slug_candidate(5)[of v] True by simp
  then have e: "slugify u v = ?s" by (simp add: slugify_def Let_def)
  show ?thesis
    unfolding e using True slug_candidate(1)[of v] slug_candidate(2)[of v]
      slug_candidate(3)[of v] slug_candidate(4)[of v] ne
    by simp
next
  case False
  then have "strip_by (\<lambda>c. c = CHR ''-'') (sub_non_slug (lower v)) = []"
    using slug_candidate(5)[of v] by simp
  then have "slugify u v = u" by (simp add: slugify_def Let_def)
  then show ?thesis using False by simp
qed

lemma contains_in_middle: "contains (x @ w @ y) w"
proof -
  have "\<exists>p q. x @ w @ y = p @ w @ q" by (intro exI) (rule refl)
  then show ?thesis unfolding contains_iff .
qed

text \<open>
  Claim C9. The provisioning message ends with one block for each of the eight template
  files, in the fixed order of \<open>TEMPLATE_FILES\<close>, after the line "Files:"; none is left
  out. The body of a block is the stripped text of the template, or, when the file is
  absent or its stripped text is empty, the stub "# name", an empty line and
  "TODO: add content". The header of the message holds the workspace path: the configured
  root (the default \<open>~/.openclaw/workspaces\<close> when none is set) without its trailing
  slashes, then "/", then the slug of the agent's name. The root in the path is the
  configured one less a run of trailing slashes and does not end with a slash; the slug
  keeps exactly the characters a-z and 0-9 of the lower-cased name, has nothing else but
  single hyphens between them and none at either end, and is the random identifier when
  the name has no such character.
\<close>

theorem provisioning_message_blocks:
  "let block = (\<lambda>n. ''\<newline>'' @ n @ ''\<newline>```md\<newline>''
                  @ (case dir n of
                       None \<Rightarrow> ''# '' @ n @ ''\<newline>\<newline>TODO: add content\<newline>''
                     | Some text \<Rightarrow>
                         if strip text = [] then ''# '' @ n @ ''\<newline>\<newline>TODO: add content\<newline>''
                         else strip text)
                  @ ''\<newline>```\<newline>'');
       root = rstrip_by (\<lambda>c. c = CHR ''/'')
                (if openclaw_workspace_root cfg = [] then ''~/.openclaw/workspaces''
                 else openclaw_workspace_root cfg);
       msg = build_provisioning_message cfg dir u1 u2 a
   in (\<exists>header.
         msg = header @ ''Files:''
               @ block ''AGENTS.md'' @ block ''BOOT.md'' @ block ''BOOTSTRAP.md''
               @ block ''HEARTBEAT.md'' @ block ''IDENTITY.md'' @ block ''SOUL.md''
               @ block ''TOOLS.md'' @ block ''USER.md''
         \<and> contains header
               (''Workspace path: '' @ root @ ''/'' @ slugify u2 (agent_name a) @ ''\<newline>''))
      \<and> (\<forall>n \<in> set TEMPLATE_FILES. contains msg (block n))
      \<and> TEMPLATE_FILES =
          [''AGENTS.md'', ''BOOT.md'', ''BOOTSTRAP.md'', ''HEARTBEAT.md'',
           ''IDENTITY.md'', ''SOUL.md'', ''TOOLS.md'', ''USER.md'']
      \<and> contains msg
            (''Workspace path: '' @ root @ ''/'' @ slugify u2 (agent_name a) @ ''\<newline>'')
      \<and> (\<exists>k. (if openclaw_workspace_root cfg = [] then ''~/.openclaw/workspaces''
                else openclaw_workspace_root cfg) = root @ replicate k CHR ''/'')
      \<and> (root = [] \<or> last root \<noteq> CHR ''/'')
      \<and> (if \<exists>c \<in> set (lower (agent_name a)). is_slug_char c
          then filter is_slug_char (slugify u2 (agent_name a))
                 = filter is_slug_char (lower (agent_name a))
               \<and> (\<forall>c \<in> set (slugify u2 (agent_name a)). is_slug_char c \<or> c = CHR ''-'')
               \<and> \<not> contains (slugify u2 (agent_name a)) ''--''
               \<and> hd (slugify u2 (agent_name a)) \<noteq> CHR ''-''
               \<and> last (slugify u2 (agent_name a)) \<noteq> CHR ''-''
          else slugify u2 (agent_name a) = u2)"
proof -
  define block where "block = (\<lambda>n. ''\<newline>'' @ n @ ''\<newline>```md\<newline>''
                  @ (case dir n of
                       None \<Rightarrow> ''# '' @ n @ ''\<newline>\<newline>TODO: add content\<newline>''
                     | Some text \<Rightarrow>
                         if strip text = [] then ''# '' @ n @ ''\<newline>\<newline>TODO: add content\<newline>''
                         else strip text)
                  @ ''\<newline>```\<newline>'')"
  define root where "root = rstrip_by (\<lambda>c. c = CHR ''/'')
                (if openclaw_workspace_root cfg = [] then ''~/.openclaw/workspaces''
                 else openclaw_workspace_root cfg)"
  define ws where "ws = ''Workspace path: '' @ root @ ''/'' @ slugify u2 (agent_name a) @ ''\<newline>''"
  define h1 where "h1 = ''Provision a new OpenClaw agent workspace.\<newline>\<newline>''
         @ ''Agent name: '' @ agent_name a @ ''\<newline>''
         @ ''Agent id: '' @ slugify u1 (agent_name a) @ ''\<newline>''
         @ ''Session key: '' @ (case openclaw_session_id a of None \<Rightarrow> [] | Some k \<Rightarrow> k) @ ''\<newline>''"
  define h2 where "h2 = ''\<newline>''
         @ ''Base URL: '' @ (if base_url cfg \<noteq> [] then base_url cfg else ''UNSET'') @ ''\<newline>\<newline>''
         @ ''Steps:\<newline>''
         @ ''1) Create the workspace directory.\<newline>''
         @ ''2) Write the files below with the exact contents.\<newline>''
         @ ''3) Set BASE_URL to '' @ (if base_url cfg \<noteq> [] then base_url cfg else ''{{BASE_URL}}'')
         @ '' for the agent runtime.\<newline>''
         @ ''4) Replace placeholders like {{AGENT_NAME}}, {{AGENT_ID}}, {{BASE_URL}}, {{AUTH_TOKEN}}.\<newline>''
         @ ''5) Leave BOOTSTRAP.md in place; the agent should run it on first start and delete it.\<newline>''
         @ ''6) Register agent id in OpenClaw so it uses this workspace path.\<newline>\<newline>''"
  define msg where "msg = build_provisioning_message cfg dir u1 u2 a"
  have blocks: "map (\<lambda>name. render_file_block name
                   (case read_templates dir name of Some t \<Rightarrow> t | None \<Rightarrow> [])) TEMPLATE_FILES
        = map block TEMPLATE_FILES"
    by (rule map_cong[OF refl]) (simp only: file_block_eq block_def)
  have wp: "workspace_path cfg u2 (agent_name a) = root @ ''/'' @ slugify u2 (agent_name a)"
    by (auto simp: workspace_path_def root_def Let_def)
  have m: "msg = (h1 @ ws @ h2) @ ''Files:'' @ concat (map block TEMPLATE_FILES)"
    unfolding msg_def build_provisioning_message_def Let_def blocks wp h1_def h2_def ws_def
    by simp
  have tf: "TEMPLATE_FILES =
          [''AGENTS.md'', ''BOOT.md'', ''BOOTSTRAP.md'', ''HEARTBEAT.md'',
           ''IDENTITY.md'', ''SOUL.md'', ''TOOLS.md'', ''USER.md'']"
    by (simp add: TEMPLATE_FILES_def)
  have c: "concat (map block TEMPLATE_FILES) = block ''AGENTS.md'' @ block ''BOOT.md'' @ block ''BOOTSTRAP.md''
               @ block ''HEARTBEAT.md'' @ block ''IDENTITY.md'' @ block ''SOUL.md''
               @ block ''TOOLS.md'' @ block ''USER.md''"
    unfolding tf by simp
  have "\<exists>x y. h1 @ ws @ h2 = x @ ws @ y" by (intro exI) (rule refl)
  then have ch: "contains (h1 @ ws @ h2) ws" unfolding contains_iff .
  have ex: "\<exists>header.
         msg = header @ ''Files:''
               @ block ''AGENTS.md'' @ block ''BOOT.md'' @ block ''BOOTSTRAP.md''
               @ block ''HEARTBEAT.md'' @ block ''IDENTITY.md'' @ block ''SOUL.md''
               @ block ''TOOLS.md'' @ block ''USER.md''
         \<and> contains header ws"
    using m ch unfolding c by (intro exI[of _ "h1 @ ws @ h2"] conjI)
  have all: "\<forall>n \<in> set TEMPLATE_FILES. contains msg (block n)"
  proof
    fix n assume n: "n \<in> set TEMPLATE_FILES"
    have "msg = ((h1 @ ws @ h2) @ ''Files:'') @ concat (map block TEMPLATE_FILES)"
      using m by simp
    then show "contains msg (block n)"
      using contains_concat_map[OF n, of "(h1 @ ws @ h2) @ ''Files:''" block] by simp
  qed
  have cm: "contains msg ws"
  proof -
    have "msg = h1 @ ws @ (h2 @ ''Files:'' @ concat (map block TEMPLATE_FILES))"
      using m by simp
    then show ?thesis using contains_in_middle[of h1 ws] by simp
  qed
  have rk: "\<exists>k. (if openclaw_workspace_root cfg = [] then ''~/.openclaw/workspaces''
                else openclaw_workspace_root cfg) = root @ replicate k CHR ''/''"
    unfolding root_def by (rule rstrip_by_char_decomp(1))
  have rl: "root = [] \<or> last root \<noteq> CHR ''/''"
    unfolding root_def by (rule rstrip_by_char_decomp(2))
  note sp = slugify_props[of "agent_name a" u2]
  show ?thesis
    unfolding Let_def block_def[symmetric] root_def[symmetric] msg_def[symmetric]
    using ex all tf cm rk rl sp unfolding ws_def
    by (intro conjI)
qed

theorem provisioning_message_blocks_witness:
  "''BOOT.md'' \<in> set TEMPLATE_FILES \<and> ''SOUL.md'' \<in> set TEMPLATE_FILES
   \<and> ''USER.md'' \<in> set TEMPLATE_FILES
   \<and> contains
        (build_provisioning_message
           \<lparr>openclaw_workspace_root = ''/srv/ws//'', base_url = []\<rparr>
           [''BOOT.md'' \<mapsto> '' hello '', ''SOUL.md'' \<mapsto> ''  ''] ''u1'' ''u2''
           \<lparr>agent_id = 1, agent_name = ''Ada Lovelace!!'', agent_board_id = None,
            openclaw_session_id = None\<rparr>)
        ''\<newline>BOOT.md\<newline>```md\<newline>hello\<newline>```\<newline>''
   \<and> contains
        (build_provisioning_message
           \<lparr>openclaw_workspace_root = ''/srv/ws//'', base_url = []\<rparr>
           [''BOOT.md'' \<mapsto> '' hello '', ''SOUL.md'' \<mapsto> ''  ''] ''u1'' ''u2''
           \<lparr>agent_id = 1, agent_name = ''Ada Lovelace!!'', agent_board_id = None,
            openclaw_session_id = None\<rparr>)
        ''\<newline>SOUL.md\<newline>```md\<newline># SOUL.md\<newline>\<newline>TODO: add content\<newline>\<newline>```\<newline>''
   \<and> contains
        (build_provisioning_message
           \<lparr>openclaw_workspace_root = ''/srv/ws//'', base_url = []\<rparr>
           [''BOOT.md'' \<mapsto> '' hello '', ''SOUL.md'' \<mapsto> ''  ''] ''u1'' ''u2''
           \<lparr>agent_id = 1, agent_name = ''Ada Lovelace!!'', agent_board_id = None,
            openclaw_session_id = None\<rparr>)
        ''\<newline>USER.md\<newline>```md\<newline># USER.md\<newline>\<newline>TODO: add content\<newline>\<newline>```\<newline>''
   \<and> contains
        (build_provisioning_message
           \<lparr>openclaw_workspace_root = ''/srv/ws//'', base_url = []\<rparr>
           [''BOOT.md'' \<mapsto> '' hello '', ''SOUL.md'' \<mapsto> ''  ''] ''u1'' ''u2''
           \<lparr>agent_id = 1, agent_name = ''Ada Lovelace!!'', agent_board_id = None,
            openclaw_session_id = None\<rparr>)
        ''Workspace path: /srv/ws/ada-lovelace\<newline>''
   \<and> contains
        (build_provisioning_message
           \<lparr>openclaw_workspace_root = [], base_url = []\<rparr>
           Map.empty ''u1'' ''u2''
           \<lparr>agent_id = 2, agent_name = ''?!'', agent_board_id = None,
            openclaw_session_id = None\<rparr>)
        ''Workspace path: ~/.openclaw/workspaces/u2\<newline>''"
proof -
  let ?dir = "[''BOOT.md'' \<mapsto> '' hello '', ''SOUL.md'' \<mapsto> ''  '']"
  have s1: "strip '' hello '' = ''hello''"
    by (simp add: strip_def strip_by_def rstrip_by_def lstrip_by_def is_space_def)
  have s2: "strip ''  '' = []"
    by (simp add: strip_def strip_by_def rstrip_by_def lstrip_by_def is_space_def)
  have m1: "''BOOT.md'' \<in> set TEMPLATE_FILES" by (simp add: TEMPLATE_FILES_def)
  have m2: "''SOUL.md'' \<in> set TEMPLATE_FILES" by (simp add: TEMPLATE_FILES_def)
  have m3: "''USER.md'' \<in> set TEMPLATE_FILES" by (simp add: TEMPLATE_FILES_def)
  have r1: "rstrip_by (\<lambda>c. c = CHR ''/'') ''/srv/ws//'' = ''/srv/ws''"
    by (simp add: rstrip_by_def)
  have r2: "rstrip_by (\<lambda>c. c = CHR ''/'') ''~/.openclaw/workspaces'' = ''~/.openclaw/workspaces''"
    by (simp add: rstrip_by_def)
  have g1: "slugify ''u2'' ''Ada Lovelace!!'' = ''ada-lovelace''"
    by (simp add: slugify_def lower_def lower_char_def char_of_eq_iff is_slug_char_def
          strip_by_def rstrip_by_def lstrip_by_def)
  have g2: "slugify ''u2'' ''?!'' = ''u2''"
    by (simp add: slugify_def lower_def lower_char_def char_of_eq_iff is_slug_char_def
          strip_by_def rstrip_by_def lstrip_by_def)
  note t = provisioning_message_blocks
      [of ?dir "\<lparr>openclaw_workspace_root = ''/srv/ws//'', base_url = []\<rparr>" "''u1''" "''u2''"
          "\<lparr>agent_id = 1, agent_name = ''Ada Lovelace!!'', agent_board_id = None,
            openclaw_session_id = None\<rparr>", unfolded Let_def]
  note t' = provisioning_message_blocks
      [of Map.empty "\<lparr>openclaw_workspace_root = [], base_url = []\<rparr>" "''u1''" "''u2''"
          "\<lparr>agent_id = 2, agent_name = ''?!'', agent_board_id = None,
            openclaw_session_id = None\<rparr>", unfolded Let_def]
  note all = t[THEN conjunct2, THEN conjunct1, rule_format]
  note path = t[THEN conjunct2, THEN conjunct2, THEN conjunct2, THEN conjunct1]
  note path' = t'[THEN conjunct2, THEN conjunct2, THEN conjunct2, THEN conjunct1]
  have b1: "contains
        (build_provisioning_message
           \<lparr>openclaw_workspace_root = ''/srv/ws//'', base_url = []\<rparr>
           ?dir ''u1'' ''u2''
           \<lparr>agent_id = 1, agent_name = ''Ada Lovelace!!'', agent_board_id = None,
            openclaw_session_id = None\<rparr>)
        ''\<newline>BOOT.md\<newline>```md\<newline>hello\<newline>```\<newline>''"
    using all[OF m1] by (simp add: s1)
  have b2: "contains
        (build_provisioning_message
           \<lparr>openclaw_workspace_root = ''/srv/ws//'', base_url = []\<rparr>
           ?dir ''u1'' ''u2''
           \<lparr>agent_id = 1, agent_name = ''Ada Lovelace!!'', agent_board_id = None,
            openclaw_session_id = None\<rparr>)
        ''\<newline>SOUL.md\<newline>```md\<newline># SOUL.md\<newline>\<newline>TODO: add content\<newline>\<newline>```\<newline>''"
    using all[OF m2] by (simp add: s2)
  have b3: "contains
        (build_provisioning_message
           \<lparr>openclaw_workspace_root = ''/srv/ws//'', base_url = []\<rparr>
           ?dir ''u1'' ''u2''
           \<lparr>agent_id = 1, agent_name = ''Ada Lovelace!!'', agent_board_id = None,
            openclaw_session_id = None\<rparr>)
        ''\<newline>USER.md\<newline>```md\<newline># USER.md\<newline>\<newline>TODO: add content\<newline>\<newline>```\<newline>''"
    using all[OF m3] by simp
  have p1: "contains
        (build_provisioning_message
           \<lparr>openclaw_workspace_root = ''/srv/ws//'', base_url = []\<rparr>
           ?dir ''u1'' ''u2''
           \<lparr>agent_id = 1, agent_name = ''Ada Lovelace!!'', agent_board_id = None,
            openclaw_session_id = None\<rparr>)
        ''Workspace path: /srv/ws/ada-lovelace\<newline>''"
    using path by (simp add: r1 g1)
  have p2: "contains
        (build_provisioning_message
           \<lparr>openclaw_workspace_root = [], base_url = []\<rparr>
           Map.empty ''u1'' ''u2''
           \<lparr>agent_id = 2, agent_name = ''?!'', agent_board_id = None,
            openclaw_session_id = None\<rparr>)
        ''Workspace path: ~/.openclaw/workspaces/u2\<newline>''"
    using path' by (simp add: r2 g2)
  show ?thesis by (intro conjI m1 m2 m3 b1 b2 b3 p1 p2)
qed

section \<open>Properties of the token codec\<close>

declare str_nat.simps [simp del]

lemma b64_char_cases:
  assumes "i < 64"
  obtains "i < 26" "b64_char i = char_of (65 + i)"
  | "26 \<le> i" "i < 52" "b64_char i = char_of (71 + i)"
  | "52 \<le> i" "i < 62" "b64_char i = char_of (i - 4)"
  | "i = 62" "b64_char i = CHR ''-''"
  | "i = 63" "b64_char i = CHR ''_''"
proof -
  consider "i < 26" | "26 \<le> i \<and> i < 52" | "52 \<le> i \<and> i < 62" | "i = 62" | "i = 63"
    using assms by linarith
  then show ?thesis
  proof cases
    case 1 then show ?thesis using that(1) by (simp add: b64_char_def)
  next
    case 2
    then have "97 + (i - 26) = 71 + i" by simp
    then show ?thesis using 2 that(2) by (simp add: b64_char_def)
  next
    case 3
    then have "48 + (i - 52) = i - 4" by simp
    then show ?thesis using 3 that(3) by (simp add: b64_char_def)
  next
    case 4 then show ?thesis using that(4) by (simp add: b64_char_def)
  next
    case 5 then show ?thesis using that(5) by (simp add: b64_char_def)
  qed
qed

lemma of_char_b64_char:
  assumes "i < 64"
  shows "(of_char (b64_char i) :: nat) =
     (if i < 26 then 65 + i else if i < 52 then 71 + i else if i < 62 then i - 4
      else if i = 62 then 45 else 95)"
  using assms by (rule b64_char_cases) simp_all

lemma b64_char_props:
  assumes "i < 64"
  shows "b64_char i \<noteq> CHR ''=''" and "b64_char i \<noteq> CHR ''$''"
    and "(of_char (b64_char i) :: nat) < 128"
proof -
  have e: "(of_char (b64_char i) :: nat) \<noteq> 61 \<and> (of_char (b64_char i) :: nat) \<noteq> 36
      \<and> (of_char (b64_char i) :: nat) < 128"
    using assms by (auto simp add: of_char_b64_char)
  show "b64_char i \<noteq> CHR ''=''" using e by auto
  show "b64_char i \<noteq> CHR ''$''" using e by auto
  show "(of_char (b64_char i) :: nat) < 128" using e by simp
qed

lemma table_b64_char:
  assumes "i < 64"
  shows "table_a2b_base64 (urlsafe_translate (b64_char i)) = Some i"
    and "urlsafe_translate (b64_char i) \<noteq> CHR ''=''"
proof -
  show "table_a2b_base64 (urlsafe_translate (b64_char i)) = Some i"
    using assms
  proof (rule b64_char_cases)
    assume "i < 26" "b64_char i = char_of (65 + i)"
    then show ?thesis
      by (simp add: urlsafe_translate_def table_a2b_base64_def char_of_eq_iff take_bit_nat_eq_self)
  next
    assume "26 \<le> i" "i < 52" "b64_char i = char_of (71 + i)"
    then show ?thesis
      by (simp add: urlsafe_translate_def table_a2b_base64_def char_of_eq_iff take_bit_nat_eq_self)
  next
    assume "52 \<le> i" "i < 62" "b64_char i = char_of (i - 4)"
    then show ?thesis
      by (auto simp add: urlsafe_translate_def table_a2b_base64_def char_of_eq_iff
            take_bit_nat_eq_self Let_def)
  next
    assume "i = 62" "b64_char i = CHR ''-''"
    then show ?thesis by (simp add: urlsafe_translate_def table_a2b_base64_def)
  next
    assume "i = 63" "b64_char i = CHR ''_''"
    then show ?thesis by (simp add: urlsafe_translate_def table_a2b_base64_def)
  qed
  then show "urlsafe_translate (b64_char i) \<noteq> CHR ''=''"
    by (auto simp: table_a2b_base64_def)
qed

lemma div_shift: "q < d \<Longrightarrow> (r * d + q) div d = (r::nat)" by simp
lemma mod_shift: "q < d \<Longrightarrow> (r * d + q) mod d = (q::nat)" by simp

lemma sextet_bound1: "n < 256 \<Longrightarrow> n div 4 < (64::nat)" by arith
lemma nibble_bound: "m < 256 \<Longrightarrow> m div 16 < (16::nat)" by arith
lemma pair_bound: "k < 256 \<Longrightarrow> k div 64 < (4::nat)" by arith
lemma sextet_bound2: "n mod 4 * 16 + m div 16 < (64::nat)" if "m < 256" for n m :: nat
proof -
  have "n mod 4 < 4" by simp
  moreover have "m div 16 < 16" using that by (rule nibble_bound)
  ultimately show ?thesis by linarith
qed
lemma sextet_bound3: "m mod 16 * 4 + k div 64 < (64::nat)" if "k < 256" for m k :: nat
proof -
  have "m mod 16 < 16" by simp
  moreover have "k div 64 < 4" using that by (rule pair_bound)
  ultimately show ?thesis by linarith
qed
lemma sextet_bound4: "n mod 4 * 16 < (64::nat)"
proof -
  have "n mod 4 < 4" by simp
  then show ?thesis by linarith
qed
lemma sextet_bound5: "m mod 16 * 4 < (64::nat)"
proof -
  have "m mod 16 < 16" by simp
  then show ?thesis by linarith
qed
lemma regroup1: "n div 4 * 4 + (n mod 4 * 16 + m div 16) div 16 = n" if "m < 256" for n m :: nat
  using nibble_bound[OF that] by (simp add: div_shift)
lemma regroup2: "(n mod 4 * 16 + m div 16) mod 16 * 16 + (m mod 16 * 4 + k div 64) div 4 = m"
  if "m < 256" "k < 256" for n m k :: nat
  using nibble_bound[OF that(1)] pair_bound[OF that(2)] by (simp add: div_shift mod_shift)
lemma regroup3: "(m mod 16 * 4 + k div 64) mod 4 * 64 + k mod 64 = k" if "k < 256" for m k :: nat
  using pair_bound[OF that] by (simp add: mod_shift)
lemma regroup4: "n div 4 * 4 + (n mod 4 * 16) div 16 = (n::nat)"
  by simp
lemma regroup5: "(n mod 4 * 16 + m div 16) mod 16 * 16 + (m mod 16 * 4) div 4 = m"
  if "m < 256" for n m :: nat
  using nibble_bound[OF that] by (simp add: mod_shift)


lemma byte_arith:
  fixes n m k :: nat
  assumes "n < 256" "m < 256" "k < 256"
  shows "n div 4 < 64" and "n mod 4 * 16 + m div 16 < 64" and "m mod 16 * 4 + k div 64 < 64"
    and "k mod 64 < 64" and "n mod 4 * 16 < 64" and "m mod 16 * 4 < 64"
    and "n div 4 * 4 + (n mod 4 * 16 + m div 16) div 16 = n"
    and "(n mod 4 * 16 + m div 16) mod 16 * 16 + (m mod 16 * 4 + k div 64) div 4 = m"
    and "(m mod 16 * 4 + k div 64) mod 4 * 64 + k mod 64 = k"
    and "n div 4 * 4 + (n mod 4 * 16) div 16 = n"
    and "(n mod 4 * 16 + m div 16) mod 16 * 16 + (m mod 16 * 4) div 4 = m"
proof -
  show "n div 4 < 64" using assms(1) by (rule sextet_bound1)
  show "n mod 4 * 16 + m div 16 < 64" using assms(2) by (rule sextet_bound2)
  show "m mod 16 * 4 + k div 64 < 64" using assms(3) by (rule sextet_bound3)
  show "k mod 64 < 64" by simp
  show "n mod 4 * 16 < 64" by (rule sextet_bound4)
  show "m mod 16 * 4 < 64" by (rule sextet_bound5)
  show "n div 4 * 4 + (n mod 4 * 16 + m div 16) div 16 = n" using assms(2) by (rule regroup1)
  show "(n mod 4 * 16 + m div 16) mod 16 * 16 + (m mod 16 * 4 + k div 64) div 4 = m"
    using assms(2) assms(3) by (rule regroup2)
  show "(m mod 16 * 4 + k div 64) mod 4 * 64 + k mod 64 = k" using assms(3) by (rule regroup3)
  show "n div 4 * 4 + (n mod 4 * 16) div 16 = n" by (rule regroup4)
  show "(n mod 4 * 16 + m div 16) mod 16 * 16 + (m mod 16 * 4) div 4 = m"
    using assms(2) by (rule regroup5)
qed

lemma a2b_step:
  assumes "v < 64"
  shows "a2b_base64 quad_pos leftchar pads out (urlsafe_translate (b64_char v) # cs) =
     (if quad_pos = 0 then a2b_base64 1 v 0 out cs
      else if quad_pos = 1
        then a2b_base64 2 (v mod 16) 0 (out @ [of_nat (leftchar * 4 + v div 16)]) cs
      else if quad_pos = 2
        then a2b_base64 3 (v mod 4) 0 (out @ [of_nat (leftchar * 16 + v div 4)]) cs
      else a2b_base64 0 0 0 (out @ [of_nat (leftchar * 64 + v)]) cs)"
  using table_b64_char[OF assms] by simp

lemma translate_pad [simp]: "urlsafe_translate CHR ''='' = CHR ''=''"
  by (simp add: urlsafe_translate_def)

lemma a2b_pad:
  "a2b_base64 quad_pos leftchar pads out (CHR ''='' # cs) =
     (if quad_pos \<ge> 2 \<and> quad_pos + (pads + 1) \<ge> 4 then Inr out
      else a2b_base64 quad_pos leftchar (if quad_pos \<ge> 2 then pads + 1 else pads) out cs)"
  by simp

lemma a2b_quad:
  assumes "v0 < 64" "v1 < 64" "v2 < 64" "v3 < 64"
  shows "a2b_base64 0 lc p out
           (urlsafe_translate (b64_char v0) # urlsafe_translate (b64_char v1)
            # urlsafe_translate (b64_char v2) # urlsafe_translate (b64_char v3) # cs)
         = a2b_base64 0 0 0
             (out @ [of_nat (v0 * 4 + v1 div 16), of_nat (v1 mod 16 * 16 + v2 div 4),
                     of_nat (v2 mod 4 * 64 + v3)]) cs"
  by (simp add: a2b_step assms del: a2b_base64.simps)

lemma a2b_pair:
  assumes "v0 < 64" "v1 < 64"
  shows "a2b_base64 0 lc p out
           [urlsafe_translate (b64_char v0), urlsafe_translate (b64_char v1), CHR ''='', CHR ''='']
         = Inr (out @ [of_nat (v0 * 4 + v1 div 16)])"
  by (simp add: a2b_step a2b_pad assms del: a2b_base64.simps(2))

lemma a2b_triple:
  assumes "v0 < 64" "v1 < 64" "v2 < 64"
  shows "a2b_base64 0 lc p out
           [urlsafe_translate (b64_char v0), urlsafe_translate (b64_char v1),
            urlsafe_translate (b64_char v2), CHR ''='']
         = Inr (out @ [of_nat (v0 * 4 + v1 div 16), of_nat (v1 mod 16 * 16 + v2 div 4)])"
  by (simp add: a2b_step a2b_pad assms del: a2b_base64.simps(2))

lemma byte_regroup:
  fixes a b c :: byte
  shows "of_nat (unat a div 4 * 4 + (unat a mod 4 * 16 + unat b div 16) div 16) = a"
    and "of_nat ((unat a mod 4 * 16 + unat b div 16) mod 16 * 16
                 + (unat b mod 16 * 4 + unat c div 64) div 4) = b"
    and "of_nat ((unat b mod 16 * 4 + unat c div 64) mod 4 * 64 + unat c mod 64) = c"
    and "of_nat (unat a div 4 * 4 + (unat a mod 4 * 16) div 16) = a"
    and "of_nat ((unat a mod 4 * 16 + unat b div 16) mod 16 * 16
                 + (unat b mod 16 * 4) div 4) = b"
proof -
  have n: "unat a < 256" using unsigned_less[of a] by simp
  have m: "unat b < 256" using unsigned_less[of b] by simp
  have k: "unat c < 256" using unsigned_less[of c] by simp
  note ar = byte_arith[OF n m k]
  show "of_nat (unat a div 4 * 4 + (unat a mod 4 * 16 + unat b div 16) div 16) = a"
    by (simp only: ar, simp)
  show "of_nat ((unat a mod 4 * 16 + unat b div 16) mod 16 * 16
                 + (unat b mod 16 * 4 + unat c div 64) div 4) = b"
    by (simp only: ar, simp)
  show "of_nat ((unat b mod 16 * 4 + unat c div 64) mod 4 * 64 + unat c mod 64) = c"
    by (simp only: ar, simp)
  show "of_nat (unat a div 4 * 4 + (unat a mod 4 * 16) div 16) = a"
    by (simp only: ar, simp)
  show "of_nat ((unat a mod 4 * 16 + unat b div 16) mod 16 * 16
                 + (unat b mod 16 * 4) div 4) = b"
    by (simp only: ar, simp)
qed

lemma a2b_encoded:
  "a2b_base64 0 0 0 out (map urlsafe_translate (urlsafe_b64encode x)) = Inr (out @ x)"
proof (induction x arbitrary: out rule: urlsafe_b64encode.induct)
  case 1
  then show ?case by simp
next
  case (2 a)
  have n: "unat a < 256" using unsigned_less[of a] by simp
  note ar = byte_arith[OF n n n]
  have "a2b_base64 0 0 0 out (map urlsafe_translate (urlsafe_b64encode [a]))
      = Inr (out @ [of_nat (unat a div 4 * 4 + (unat a mod 4 * 16) div 16)])"
    by (simp only: urlsafe_b64encode.simps list.map translate_pad a2b_pair[OF ar(1) ar(5)])
  then show ?case by (simp only: byte_regroup)
next
  case (3 a b)
  have n: "unat a < 256" using unsigned_less[of a] by simp
  have m: "unat b < 256" using unsigned_less[of b] by simp
  note ar = byte_arith[OF n m m]
  have "a2b_base64 0 0 0 out (map urlsafe_translate (urlsafe_b64encode [a, b]))
      = Inr (out @ [of_nat (unat a div 4 * 4 + (unat a mod 4 * 16 + unat b div 16) div 16),
                    of_nat ((unat a mod 4 * 16 + unat b div 16) mod 16 * 16
                            + (unat b mod 16 * 4) div 4)])"
    by (simp only: urlsafe_b64encode.simps list.map translate_pad
          a2b_triple[OF ar(1) ar(2) ar(6)])
  then show ?case by (simp only: byte_regroup)
next
  case (4 a b c rest)
  have n: "unat a < 256" using unsigned_less[of a] by simp
  have m: "unat b < 256" using unsigned_less[of b] by simp
  have k: "unat c < 256" using unsigned_less[of c] by simp
  note ar = byte_arith[OF n m k]
  have "a2b_base64 0 0 0 out (map urlsafe_translate (urlsafe_b64encode (a # b # c # rest)))
      = a2b_base64 0 0 0
          (out @ [of_nat (unat a div 4 * 4 + (unat a mod 4 * 16 + unat b div 16) div 16),
                  of_nat ((unat a mod 4 * 16 + unat b div 16) mod 16 * 16
                          + (unat b mod 16 * 4 + unat c div 64) div 4),
                  of_nat ((unat b mod 16 * 4 + unat c div 64) mod 4 * 64 + unat c mod 64)])
          (map urlsafe_translate (urlsafe_b64encode rest))"
    by (simp only: urlsafe_b64encode.simps list.map map_append append.simps
          a2b_quad[OF ar(1) ar(2) ar(3) ar(4)])
  also have "\<dots> = a2b_base64 0 0 0 (out @ [a, b, c])
          (map urlsafe_translate (urlsafe_b64encode rest))"
    by (simp only: byte_regroup)
  also have "\<dots> = Inr ((out @ [a, b, c]) @ rest)" by (rule 4)
  finally show ?case by simp
qed

lemma b64_char_member:
  "v < 64 \<Longrightarrow> c = b64_char v \<Longrightarrow> c = CHR ''='' \<or> (\<exists>i<64. c = b64_char i)"
  by blast

lemma encoded_chars:
  "c \<in> set (urlsafe_b64encode x) \<Longrightarrow> c = CHR ''='' \<or> (\<exists>i<64. c = b64_char i)"
proof (induction x rule: urlsafe_b64encode.induct)
  case 1
  then show ?case by simp
next
  case (2 a)
  have n: "unat a < 256" using unsigned_less[of a] by simp
  note ar = byte_arith[OF n n n]
  from 2 consider "c = b64_char (unat a div 4)" | "c = b64_char ((unat a mod 4) * 16)"
    | "c = CHR ''=''" by auto
  then show ?case
  proof cases
    case 1 then show ?thesis using ar(1) by (intro b64_char_member)
  next
    case 2 then show ?thesis using ar(5) by (intro b64_char_member)
  next
    case 3 then show ?thesis by simp
  qed
next
  case (3 a b)
  have n: "unat a < 256" using unsigned_less[of a] by simp
  have m: "unat b < 256" using unsigned_less[of b] by simp
  note ar = byte_arith[OF n m m]
  from 3 consider "c = b64_char (unat a div 4)"
    | "c = b64_char ((unat a mod 4) * 16 + unat b div 16)"
    | "c = b64_char ((unat b mod 16) * 4)" | "c = CHR ''=''" by auto
  then show ?case
  proof cases
    case 1 then show ?thesis using ar(1) by (intro b64_char_member)
  next
    case 2 then show ?thesis using ar(2) by (intro b64_char_member)
  next
    case 3 then show ?thesis using ar(6) by (intro b64_char_member)
  next
    case 4 then show ?thesis by simp
  qed
next
  case (4 a b c' rest)
  have n: "unat a < 256" using unsigned_less[of a] by simp
  have m: "unat b < 256" using unsigned_less[of b] by simp
  have k: "unat c' < 256" using unsigned_less[of c'] by simp
  note ar = byte_arith[OF n m k]
  from 4(2) consider "c = b64_char (unat a div 4)"
    | "c = b64_char ((unat a mod 4) * 16 + unat b div 16)"
    | "c = b64_char ((unat b mod 16) * 4 + unat c' div 64)"
    | "c = b64_char (unat c' mod 64)" | "c \<in> set (urlsafe_b64encode rest)" by auto
  then show ?case
  proof cases
    case 1 then show ?thesis using ar(1) by (intro b64_char_member)
  next
    case 2 then show ?thesis using ar(2) by (intro b64_char_member)
  next
    case 3 then show ?thesis using ar(3) by (intro b64_char_member)
  next
    case 4 then show ?thesis using ar(4) by (intro b64_char_member)
  next
    case 5 then show ?thesis by (rule 4(1))
  qed
qed

lemma encoded_char_ascii:
  assumes "c \<in> set (urlsafe_b64encode x)"
  shows "(of_char c :: nat) < 128" and "c \<noteq> CHR ''$''"
proof -
  from encoded_chars[OF assms] consider "c = CHR ''=''" | i where "i < 64" "c = b64_char i"
    by blast
  then have "(of_char c :: nat) < 128 \<and> c \<noteq> CHR ''$''"
  proof cases
    case 1 then show ?thesis by simp
  next
    case 2
    show ?thesis using b64_char_props(2)[OF 2(1)] b64_char_props(3)[OF 2(1)] unfolding 2(2)
      by simp
  qed
  then show "(of_char c :: nat) < 128" and "c \<noteq> CHR ''$''" by simp_all
qed

lemma encoded_ascii: "\<not> list_ex (\<lambda>c. (of_char c :: nat) \<ge> 128) (urlsafe_b64encode x)"
proof
  assume "list_ex (\<lambda>c. (of_char c :: nat) \<ge> 128) (urlsafe_b64encode x)"
  then obtain c where c: "c \<in> set (urlsafe_b64encode x)" and g: "(of_char c :: nat) \<ge> 128"
    unfolding list_ex_iff by blast
  from encoded_char_ascii(1)[OF c] g show False by simp
qed

lemma encoded_no_dollar: "CHR ''$'' \<notin> set (urlsafe_b64encode x)"
proof
  assume "CHR ''$'' \<in> set (urlsafe_b64encode x)"
  from encoded_char_ascii(2)[OF this] show False by simp
qed

lemma set_rstrip_by: "c \<in> set (rstrip_by p s) \<Longrightarrow> c \<in> set s"
proof -
  assume "c \<in> set (rstrip_by p s)"
  then have "c \<in> set (dropWhile p (rev s))" by (simp add: rstrip_by_def)
  then have "c \<in> set (rev s)" by (rule set_dropWhileD)
  then show ?thesis by simp
qed

lemma b64encode_no_dollar: "CHR ''$'' \<notin> set (b64encode x)"
proof
  assume "CHR ''$'' \<in> set (b64encode x)"
  then have "CHR ''$'' \<in> set (urlsafe_b64encode x)"
    unfolding b64encode_def by (rule set_rstrip_by)
  then show False using encoded_no_dollar by blast
qed

lemma rstrip_by_append:
  assumes "q \<noteq> []" "\<not> p (last q)"
  shows "rstrip_by p (q @ e) = q @ rstrip_by p e"
proof -
  have h: "\<not> p (hd (rev q))" using assms by (simp add: hd_rev)
  have r: "rev q \<noteq> []" using assms by simp
  have dq: "dropWhile p (rev q) = rev q" using h r by (cases "rev q") auto
  show ?thesis
  proof (cases "\<forall>x \<in> set (rev e). p x")
    case True
    then have "dropWhile p (rev e @ rev q) = dropWhile p (rev q)"
      by (intro dropWhile_append2) blast
    moreover have "dropWhile p (rev e) = []" using True by (simp only: dropWhile_eq_Nil_conv)
    ultimately show ?thesis by (simp add: rstrip_by_def dq)
  next
    case False
    then obtain y where "y \<in> set (rev e)" "\<not> p y" by blast
    then have "dropWhile p (rev e @ rev q) = dropWhile p (rev e) @ rev q"
      by (rule dropWhile_append1)
    then show ?thesis by (simp add: rstrip_by_def)
  qed
qed

lemma padding_restored:
  "b64encode x @ replicate ((4 - length (b64encode x) mod 4) mod 4) CHR ''=''
   = urlsafe_b64encode x"
proof (induction x rule: urlsafe_b64encode.induct)
  case 1
  then show ?case by (simp add: b64encode_def rstrip_by_def)
next
  case (2 a)
  have n: "unat a < 256" using unsigned_less[of a] by simp
  note ar = byte_arith[OF n n n]
  have "b64encode [a] = [b64_char (unat a div 4), b64_char ((unat a mod 4) * 16)]"
    using b64_char_props(1)[OF ar(5)] by (simp add: b64encode_def rstrip_by_def)
  then show ?case by (simp add: numeral_2_eq_2)
next
  case (3 a b)
  have n: "unat a < 256" using unsigned_less[of a] by simp
  have m: "unat b < 256" using unsigned_less[of b] by simp
  note ar = byte_arith[OF n m m]
  have "b64encode [a, b] = [b64_char (unat a div 4), b64_char ((unat a mod 4) * 16 + unat b div 16),
      b64_char ((unat b mod 16) * 4)]"
    using b64_char_props(1)[OF ar(6)] by (simp add: b64encode_def rstrip_by_def)
  then show ?case by simp
next
  case (4 a b c rest)
  have k: "unat c < 256" using unsigned_less[of c] by simp
  note ar = byte_arith[OF k k k]
  let ?q = "[b64_char (unat a div 4), b64_char ((unat a mod 4) * 16 + unat b div 16),
      b64_char ((unat b mod 16) * 4 + unat c div 64), b64_char (unat c mod 64)]"
  have e: "b64encode (a # b # c # rest) = ?q @ b64encode rest"
    unfolding b64encode_def urlsafe_b64encode.simps
    by (rule rstrip_by_append) (simp_all add: b64_char_props(1)[OF ar(4)])
  have l: "length (b64encode (a # b # c # rest)) mod 4 = length (b64encode rest) mod 4"
    unfolding e by simp
  show ?case unfolding l unfolding e using 4 by simp
qed

lemma b64_roundtrip: "b64decode (b64encode x) = Inr x"
  unfolding b64decode_def Let_def padding_restored urlsafe_b64decode_def
  using encoded_ascii[of x] a2b_encoded[of "[]" x] by simp

lemma str_nat_iterations: "str_nat ITERATIONS = ''200000''"
  by (simp add: ITERATIONS_def str_nat.simps char_of_eq_iff)

lemma py_int_iterations: "py_int ''200000'' = Some 200000"
  by (simp add: py_int_def strip_def strip_by_def rstrip_by_def lstrip_by_def is_space_def
        is_digit_def digit_value_def)

lemma split_digest:
  assumes "CHR ''$'' \<notin> set s" "CHR ''$'' \<notin> set d"
  shows "split_on CHR ''$'' (''pbkdf2_sha256$'' @ ''200000'' @ ''$'' @ s @ ''$'' @ d)
         = [''pbkdf2_sha256'', ''200000'', s, d]"
proof -
  have 1: "split_on CHR ''$'' (s @ CHR ''$'' # d) = [s, d]"
    using split_on_append_sep[OF assms(1), of d] split_on_no_sep[OF assms(2)] by simp
  have h2: "CHR ''$'' \<notin> set ''200000''" by simp
  have 2: "split_on CHR ''$'' (''200000'' @ CHR ''$'' # (s @ CHR ''$'' # d)) = [''200000'', s, d]"
    using split_on_append_sep[OF h2, of "s @ CHR ''$'' # d"] unfolding 1 .
  have h3: "CHR ''$'' \<notin> set ''pbkdf2_sha256''" by simp
  have 3: "split_on CHR ''$'' (''pbkdf2_sha256'' @ CHR ''$'' # (''200000'' @ CHR ''$'' # (s @ CHR ''$'' # d)))
        = [''pbkdf2_sha256'', ''200000'', s, d]"
    using split_on_append_sep[OF h3, of "''200000'' @ CHR ''$'' # (s @ CHR ''$'' # d)"]
    unfolding 2 .
  from 3 show ?thesis by simp
qed

lemma hash_agent_token_value:
  "hash_agent_token kdf salt token =
     Inr (''pbkdf2_sha256$'' @ ''200000'' @ ''$'' @ b64encode salt @ ''$''
          @ b64encode (kdf (utf8_encode token) salt 200000))"
  by (simp add: hash_agent_token_def pbkdf2_hmac_def str_nat_iterations) (simp add: ITERATIONS_def)

lemma verify_hashed:
  "verify_agent_token kdf token
     (''pbkdf2_sha256$'' @ ''200000'' @ ''$'' @ b64encode salt @ ''$''
      @ b64encode (kdf (utf8_encode token) salt 200000)) = Inr True"
  unfolding verify_agent_token_def
    split_digest[OF b64encode_no_dollar b64encode_no_dollar]
  by (simp add: py_int_iterations b64_roundtrip pbkdf2_hmac_def)

text \<open>
  Claim C3. For every raw token, every salt drawn by \<open>hash_agent_token\<close> and every
  derivation function, hashing returns the digest string
  \<open>pbkdf2_sha256$200000$<salt>$<digest>\<close> and \<open>verify_agent_token\<close> of the raw token and
  that digest string returns true. The tokens of \<open>generate_agent_token\<close> are among them.
\<close>

theorem token_round_trip:
  "(\<exists>h. hash_agent_token kdf salt raw = Inr h \<and> verify_agent_token kdf raw h = Inr True)
   \<and> (\<exists>h. hash_agent_token kdf salt (generate_agent_token random_bytes) = Inr h
          \<and> verify_agent_token kdf (generate_agent_token random_bytes) h = Inr True)
   \<and> hash_agent_token kdf salt raw =
        Inr (''pbkdf2_sha256$200000$'' @ b64encode salt @ ''$''
             @ b64encode (kdf (utf8_encode raw) salt 200000))"
proof (intro conjI)
  show "\<exists>h. hash_agent_token kdf salt raw = Inr h \<and> verify_agent_token kdf raw h = Inr True"
    using verify_hashed hash_agent_token_value by blast
  show "\<exists>h. hash_agent_token kdf salt (generate_agent_token random_bytes) = Inr h
          \<and> verify_agent_token kdf (generate_agent_token random_bytes) h = Inr True"
    using verify_hashed hash_agent_token_value by blast
  show "hash_agent_token kdf salt raw =
        Inr (''pbkdf2_sha256$200000$'' @ b64encode salt @ ''$''
             @ b64encode (kdf (utf8_encode raw) salt 200000))"
    using hash_agent_token_value[of kdf salt raw] by simp
qed

theorem token_round_trip_witness:
  "hash_agent_token (\<lambda>p s n. p @ s) [1, 2, 3] ''tok'' = Inr ''pbkdf2_sha256$200000$AQID$dG9rAQID''
   \<and> verify_agent_token (\<lambda>p s n. p @ s) ''tok'' ''pbkdf2_sha256$200000$AQID$dG9rAQID'' = Inr True"
proof -
  note t = token_round_trip[of "\<lambda>p s n. p @ s" "[1, 2, 3]" "''tok''"]
  have e1: "b64encode [1, 2, 3 :: byte] = ''AQID''" by code_simp
  have e2: "b64encode (utf8_encode ''tok'' @ [1, 2, 3 :: byte]) = ''dG9rAQID''" by code_simp
  have h: "hash_agent_token (\<lambda>p s n. p @ s) [1, 2, 3] ''tok''
      = Inr ''pbkdf2_sha256$200000$AQID$dG9rAQID''"
    using t[THEN conjunct2, THEN conjunct2] by (simp add: e1 e2)
  from t[THEN conjunct1] h
  have "verify_agent_token (\<lambda>p s n. p @ s) ''tok'' ''pbkdf2_sha256$200000$AQID$dG9rAQID''
      = Inr True" by simp
  with h show ?thesis by simp
qed

text \<open>
  Claim C4 at the stored digest \<open>pbkdf2_sha256$1$a$bb\<close> (and at \<open>pbkdf2_sha256$1$aa$b\<close>):
  four fields, the known algorithm, a numeric iteration count and a base64 segment of one
  character. \<open>_b64decode\<close> is called outside the two \<open>try\<close> blocks, and the
  \<open>binascii.Error\<close> it raises leaves \<open>verify_agent_token\<close>.
\<close>

theorem verify_raises_on_malformed_base64:
  "verify_agent_token kdf ''tok'' ''pbkdf2_sha256$1$a$bb''
     = Inl (Exc BinasciiError
              ''Invalid base64-encoded string: number of data characters (1) cannot be 1 more than a multiple of 4''
              None)
   \<and> verify_agent_token kdf ''tok'' ''pbkdf2_sha256$1$aa$b''
     = Inl (Exc BinasciiError
              ''Invalid base64-encoded string: number of data characters (1) cannot be 1 more than a multiple of 4''
              None)"
  by code_simp

section \<open>The backoff driver\<close>






declare run_loop.simps(2) [simp del]




end
